theory Spec2Isabelle
  imports Main
begin

section \<open>Strings, numbers and dates of the host language\<close>

text \<open>
  Strings are lists of code units; the model covers code units below 256. The white space
  of \<^verbatim>\<open>String.prototype.trim\<close> and of \<^verbatim>\<open>parseInt\<close> in that range is
  TAB, LF, VT, FF, CR, SPACE and NBSP.
\<close>

definition isWhiteSpace :: "char \<Rightarrow> bool" where
  "isWhiteSpace c = ((of_char c :: nat) \<in> {9, 10, 11, 12, 13, 32, 160})"

definition trim :: "string \<Rightarrow> string" where
  "trim s = rev (dropWhile isWhiteSpace (rev (dropWhile isWhiteSpace s)))"

text \<open>
  \<^verbatim>\<open>s.split(',')\<close>: the empty string gives one empty token. A character other than
  the comma is put in front of the first token of the rest, which always exists.
\<close>

fun split_comma :: "string \<Rightarrow> string list" where
  "split_comma [] = [[]]"
| "split_comma (c # cs) =
     (if c = CHR '','' then [] # split_comma cs
      else (case split_comma cs of
              t # ts \<Rightarrow> (c # t) # ts
            | [] \<Rightarrow> [[c]]))"

text \<open>\<^verbatim>\<open>tokens.join(',')\<close>, the inverse used to state what \<open>split_comma\<close> computes.\<close>

fun join_comma :: "string list \<Rightarrow> string" where
  "join_comma [] = []"
| "join_comma [t] = t"
| "join_comma (t # u # ts) = t @ CHR '','' # join_comma (u # ts)"

text \<open>\<^verbatim>\<open>String.prototype.toLowerCase\<close> on code units below 256.\<close>

definition lowerChar :: "char \<Rightarrow> char" where
  "lowerChar c =
     (let n = (of_char c :: nat)
      in if (65 \<le> n \<and> n \<le> 90) \<or> (192 \<le> n \<and> n \<le> 222 \<and> n \<noteq> 215)
         then char_of (n + 32) else c)"

definition toLowerCase :: "string \<Rightarrow> string" where
  "toLowerCase s = map lowerChar s"

text \<open>
  \<^verbatim>\<open>parseInt(s)\<close> without a radix: leading white space is skipped, a sign is read, a
  \<^verbatim>\<open>0x\<close> prefix selects base 16, the longest prefix of digits is converted, and no
  digit at all gives NaN (\<open>None\<close>).
\<close>

definition digitValue :: "char \<Rightarrow> nat option" where
  "digitValue c =
     (let n = (of_char c :: nat)
      in if 48 \<le> n \<and> n \<le> 57 then Some (n - 48)
         else if 97 \<le> n \<and> n \<le> 122 then Some (n - 87)
         else if 65 \<le> n \<and> n \<le> 90 then Some (n - 55)
         else None)"

definition isRadixDigit :: "nat \<Rightarrow> char \<Rightarrow> bool" where
  "isRadixDigit r c = (case digitValue c of None \<Rightarrow> False | Some d \<Rightarrow> d < r)"

definition digitsValue :: "nat \<Rightarrow> string \<Rightarrow> nat" where
  "digitsValue r z = foldl (\<lambda>a c. a * r + (case digitValue c of None \<Rightarrow> 0 | Some d \<Rightarrow> d)) 0 z"

definition parseInt :: "string \<Rightarrow> int option" where
  "parseInt s =
     (let S = dropWhile isWhiteSpace s;
          neg = (S \<noteq> [] \<and> hd S = CHR ''-'');
          S1 = (if S \<noteq> [] \<and> (hd S = CHR ''+'' \<or> hd S = CHR ''-'') then tl S else S);
          hex = (take 2 S1 = ''0x'' \<or> take 2 S1 = ''0X'');
          R = (if hex then 16 else 10);
          S2 = (if hex then drop 2 S1 else S1);
          Z = takeWhile (isRadixDigit R) S2
      in if Z = [] then None
         else Some ((if neg then - 1 else 1) * int (digitsValue R Z)))"

text \<open>
  A \<^verbatim>\<open>Date\<close> holds milliseconds since the epoch, or is invalid. \<^verbatim>\<open>new Date(t)\<close>
  is valid only for \<open>\<bar>t\<bar> \<le> 8.64e15\<close>; \<^verbatim>\<open>toISOString\<close> of an invalid date throws
  RangeError.
\<close>

type_synonym instant = int

definition maxTime :: int where
  "maxTime = 8640000000000000"

definition timeClip :: "int \<Rightarrow> instant option" where
  "timeClip t = (if \<bar>t\<bar> \<le> maxTime then Some t else None)"

section \<open>Configuration constants\<close>

text \<open>
  \<open>SYNC_BUFFER_HOURS\<close> and \<open>API_PAGE_SIZE\<close> are fields of \<^verbatim>\<open>DEFAULT_CONFIG\<close> in
  umami.constants.ts. \<open>INITIAL_SYNC_DAYS\<close> is the literal \<^verbatim>\<open>'7'\<close> that
  determineSyncWindow uses when the variable is unset, and \<open>MAX_PAGES\<close> the literal
  \<^verbatim>\<open>1000\<close> of the safety check in fetchAllSessions.
\<close>

definition INITIAL_SYNC_DAYS :: string where
  "INITIAL_SYNC_DAYS = ''7''"

definition SYNC_BUFFER_HOURS :: int where
  "SYNC_BUFFER_HOURS = 12"

definition API_PAGE_SIZE :: int where
  "API_PAGE_SIZE = 100"

definition MAX_PAGES :: nat where
  "MAX_PAGES = 1000"

section \<open>Data model (umami.types.ts, systemConfig.model.ts, user.model.ts)\<close>

text \<open>
  \<^verbatim>\<open>MySqlSession\<close> of umami.types.ts: what getSessionsCreatedAfter builds from each row
  of its query. It has no \<^verbatim>\<open>website_id\<close> property.
\<close>

record MySqlSession =
  session_id :: string
  created_at :: instant
  distinct_id :: string

text \<open>
  A row of the relational \<^verbatim>\<open>session\<close> table. \<open>website_id\<close> is the column the filter of
  syncSessionIdsForWindow refers to; the query of getSessionsCreatedAfter selects the other
  three columns only.
\<close>

record SessionRow = MySqlSession +
  website_id :: string

record UmamiSession =
  us_id :: string
  us_websiteId :: string
  browser :: string
  os :: string
  device :: string
  screen :: string
  language :: string
  country :: "string option"
  region :: "string option"
  city :: "string option"
  firstAt :: instant
  lastAt :: instant
  visits :: int
  views :: string
  createdAt :: instant

record UmamiApiResponse =
  data :: "UmamiSession list"
  total :: int
  page :: int
  pageSize :: int

text \<open>The \<^verbatim>\<open>umamiAnalytics\<close> snapshot stored on a user by updateSingleUserAnalytics.\<close>

record UmamiAnalytics =
  a_id :: string
  a_websiteId :: string
  a_browser :: string
  a_os :: string
  a_device :: string
  a_screen :: string
  a_language :: string
  a_country :: string
  a_region :: string
  a_city :: string
  a_firstAt :: instant
  a_lastAt :: instant
  a_visits :: int
  a_views :: string
  a_createdAt :: instant

record User =
  email :: string
  user_session_id :: "string option"
  umamiAnalytics :: "UmamiAnalytics option"
  updatedAt :: instant

text \<open>
  Stored values below \<^verbatim>\<open>umamiSync.websiteSyncStatus\<close>: numbers, dates, strings and embedded
  documents (fields in order). The update operators address this subdocument by dotted paths
  built from the website id, so it is kept as the store has it.
\<close>

datatype bson = BNum int | BDate instant | BStr string | BDoc "(string \<times> bson) list"

text \<open>The \<^verbatim>\<open>WebsiteSyncStatus\<close> object that updateWebsiteSyncStatus writes.\<close>

definition statusDoc :: "instant \<Rightarrow> string \<Rightarrow> nat \<Rightarrow> bson" where
  "statusDoc lastSync syncDay processed =
     BDoc [(''lastSync'', BDate lastSync), (''lastDaySynced'', BStr syncDay),
           (''sessionsProcessed'', BNum (int processed)), (''errorCount'', BNum 0)]"

text \<open>
  The singleton \<^verbatim>\<open>systemconfigs\<close> document with \<^verbatim>\<open>_id = 'global'\<close>: the fields of
  \<^verbatim>\<open>umamiSync\<close> (with \<open>websiteSyncStatus\<close> the fields of that embedded document) and the
  two fields set on insert.
\<close>

record SystemConfig =
  lastSuccessfulSync :: "instant option"
  lastSessionSync :: "instant option"
  lastAnalyticsSync :: "instant option"
  websiteSyncStatus :: "(string \<times> bson) list"
  doc_createdAt :: "instant option"
  doc_type :: "string option"

definition emptyConfig :: SystemConfig where
  "emptyConfig = \<lparr>lastSuccessfulSync = None, lastSessionSync = None, lastAnalyticsSync = None,
     websiteSyncStatus = [], doc_createdAt = None, doc_type = None\<rparr>"

datatype SyncType = initial | incremental

record SyncWindow =
  startDate :: instant
  endDate :: instant
  syncType :: SyncType

datatype error =
    DbNotConnected
  | NoUsersUpdated
  | ApiAuthFailed
  | ApiRequestFailed
  | NoToken
  | SourceUnavailable
  | StoreError
  | RangeError

section \<open>The world a run executes in\<close>

text \<open>
  Operations on the document store; the environment decides for each whether the driver
  call throws.
\<close>

datatype store_op =
    FindConfig
  | SetWebsiteStatus string
  | IncErrorCount string
  | SetLastSuccessfulSync
  | UpdateUserSession string
  | UpdateUserAnalytics string

text \<open>
  Calls to the analytics API and the warnings and errors given to the logger, in order.
  \<^verbatim>\<open>logger.info\<close> and \<^verbatim>\<open>logger.debug\<close> calls and the counters that only feed them
  have no effect on control flow or stored data and are left out.
\<close>

datatype event =
    Authenticate
  | FetchSessionsPage string nat
  | LogWarn string
  | LogError string

text \<open>
  What the run does not control: the process environment, the clock (\<open>time_at k\<close> is the
  value of the \<open>k\<close>-th clock read), the relational source (\<open>mysql_sessions t\<close> are the rows
  created at or after \<open>t\<close> in creation order, or \<open>None\<close> when the query fails), the analytics
  API, whether a store call throws for a reason outside the model, and whether \<^verbatim>\<open>DatabaseService.getConnection()\<close> is non-null.
  \<open>toISODate\<close> stands for \<^verbatim>\<open>d.toISOString().split('T')[0]\<close>.
\<close>

record env =
  connection :: bool
  env_INITIAL_SYNC_DAYS :: "string option"
  time_at :: "nat \<Rightarrow> instant"
  mysql_sessions :: "instant \<Rightarrow> SessionRow list option"
  api_login :: "string option"
  api_sessions :: "string \<Rightarrow> string \<Rightarrow> instant \<Rightarrow> instant \<Rightarrow> nat \<Rightarrow> int \<Rightarrow> UmamiApiResponse option"
  store_fails :: "store_op \<Rightarrow> bool"
  toISODate :: "instant \<Rightarrow> string"

record world =
  users :: "User list"
  systemconfig :: "SystemConfig option"
  currentToken :: "string option"
  clock :: nat
  trace :: "event list"

text \<open>The two services each keep the website list computed by their constructor.\<close>

record UmamiService =
  websiteIds :: "string list"
  api_websiteIds :: "string list"

definition newDate :: "env \<Rightarrow> world \<Rightarrow> instant \<times> world" where
  "newDate e w = (time_at e (clock w), w\<lparr>clock := Suc (clock w)\<rparr>)"

definition logEvent :: "event \<Rightarrow> world \<Rightarrow> world" where
  "logEvent ev w = w\<lparr>trace := trace w @ [ev]\<rparr>"

section \<open>getWebsiteIds (umami.service.ts, umamiApi.service.ts)\<close>

definition getWebsiteIds :: "string option \<Rightarrow> string list" where
  "getWebsiteIds v =
     (let websiteIdsStr = (case v of None \<Rightarrow> [] | Some s \<Rightarrow> s)
      in filter (\<lambda>t. t \<noteq> []) (map trim (split_comma websiteIdsStr)))"

definition new_UmamiService :: "string option \<Rightarrow> UmamiService" where
  "new_UmamiService v = \<lparr>websiteIds = getWebsiteIds v, api_websiteIds = getWebsiteIds v\<rparr>"

section \<open>Analytics API adapter (umamiApi.service.ts)\<close>

definition authenticate :: "env \<Rightarrow> world \<Rightarrow> (error + string) \<times> world" where
  "authenticate e w =
     (let w1 = logEvent Authenticate w
      in case api_login e of
           None \<Rightarrow> (Inl ApiAuthFailed, logEvent (LogError ''Umami API authentication failed'') w1)
         | Some tok \<Rightarrow> (Inr tok, w1\<lparr>currentToken := Some tok\<rparr>))"

text \<open>\<^verbatim>\<open>if (!this.currentToken)\<close>: null and the empty string are both falsy.\<close>

definition getToken :: "world \<Rightarrow> error + string" where
  "getToken w =
     (case currentToken w of
        None \<Rightarrow> Inl NoToken
      | Some tok \<Rightarrow> if tok = [] then Inl NoToken else Inr tok)"

definition clearToken :: "world \<Rightarrow> world" where
  "clearToken w = w\<lparr>currentToken := None\<rparr>"

definition fetchSessionsPage ::
  "env \<Rightarrow> string \<Rightarrow> instant \<Rightarrow> instant \<Rightarrow> nat \<Rightarrow> world \<Rightarrow> (error + UmamiApiResponse) \<times> world" where
  "fetchSessionsPage e websiteId startTimestamp endTimestamp pg w =
     (case getToken w of
        Inl err \<Rightarrow>
          (Inl ApiRequestFailed, logEvent (LogError ''Failed to fetch sessions from Umami API'') w)
      | Inr token \<Rightarrow>
          (let w1 = logEvent (FetchSessionsPage websiteId pg) w
           in case api_sessions e token websiteId startTimestamp endTimestamp pg API_PAGE_SIZE of
                None \<Rightarrow>
                  (Inl ApiRequestFailed,
                   logEvent (LogError ''Failed to fetch sessions from Umami API'') w1)
              | Some response \<Rightarrow> (Inr response, w1)))"

text \<open>
  The \<^verbatim>\<open>while (hasMoreData)\<close> loop of fetchAllSessions, entered with the page to request
  and the sessions collected so far. After a page is appended the page number is increased;
  beyond \<open>MAX_PAGES\<close> a warning is logged and the loop is left, otherwise it goes on while
  the page held as many records as its own \<^verbatim>\<open>pageSize\<close> field says.
\<close>

function fetchAllSessions_loop ::
  "env \<Rightarrow> string \<Rightarrow> instant \<Rightarrow> instant \<Rightarrow> nat \<Rightarrow> UmamiSession list \<Rightarrow> world
     \<Rightarrow> (error + UmamiSession list) \<times> world" where
  "fetchAllSessions_loop e websiteId startTimestamp endTimestamp pg allSessions w =
     (case fetchSessionsPage e websiteId startTimestamp endTimestamp pg w of
        (Inl err, w1) \<Rightarrow> (Inl err, w1)
      | (Inr response, w1) \<Rightarrow>
          if pg + 1 > MAX_PAGES
          then (Inr (allSessions @ data response),
                logEvent (LogWarn ''Reached maximum page limit, stopping pagination'') w1)
          else if int (length (data response)) = pageSize response
          then fetchAllSessions_loop e websiteId startTimestamp endTimestamp (pg + 1)
                 (allSessions @ data response) w1
          else (Inr (allSessions @ data response), w1))"
  by pat_completeness auto
termination
  by (relation "measure (\<lambda>(e, websiteId, startTimestamp, endTimestamp, pg, allSessions, w). MAX_PAGES - pg)")
     auto

declare fetchAllSessions_loop.simps [simp del]

definition fetchAllSessions ::
  "env \<Rightarrow> string \<Rightarrow> instant \<Rightarrow> instant \<Rightarrow> world \<Rightarrow> (error + UmamiSession list) \<times> world" where
  "fetchAllSessions e websiteId startTimestamp endTimestamp w =
     (case fetchAllSessions_loop e websiteId startTimestamp endTimestamp 1 [] w of
        (Inl err, w1) \<Rightarrow>
          (Inl err, logEvent (LogError ''Failed to fetch all sessions for website'') w1)
      | (Inr allSessions, w1) \<Rightarrow> (Inr allSessions, w1))"

section \<open>Document store operations\<close>

text \<open>
  \<^verbatim>\<open>collection.updateOne(filter, {$set: ...})\<close> on the users collection: the first
  document that matches is updated; \<open>matchedCount\<close> is 1 when one matched and
  \<open>modifiedCount\<close> is 1 when the update changed it. Returns
  \<open>((matchedCount, modifiedCount), users)\<close>.
\<close>

fun updateFirst :: "(User \<Rightarrow> bool) \<Rightarrow> (User \<Rightarrow> User) \<Rightarrow> User list \<Rightarrow> (nat \<times> nat) \<times> User list" where
  "updateFirst p f [] = ((0, 0), [])"
| "updateFirst p f (u # us) =
     (if p u then ((1, if f u = u then 0 else 1), f u # us)
      else (case updateFirst p f us of (result, us') \<Rightarrow> (result, u # us')))"

definition users_updateOne ::
  "env \<Rightarrow> store_op \<Rightarrow> (User \<Rightarrow> bool) \<Rightarrow> (User \<Rightarrow> User) \<Rightarrow> world \<Rightarrow> (error + nat \<times> nat) \<times> world" where
  "users_updateOne e opn p f w =
     (if store_fails e opn then (Inl StoreError, w)
      else (case updateFirst p f (users w) of
              (result, us') \<Rightarrow> (Inr result, w\<lparr>users := us'\<rparr>)))"

text \<open>
  \<^verbatim>\<open>path.split('.')\<close>: the components of a dotted update path.
\<close>

fun split_dot :: "string \<Rightarrow> string list" where
  "split_dot [] = [[]]"
| "split_dot (c # cs) =
     (if c = CHR ''.'' then [] # split_dot cs
      else (case split_dot cs of
              t # ts \<Rightarrow> (c # t) # ts
            | [] \<Rightarrow> [[c]]))"

text \<open>Setting one field of a document: replaced in place, or appended when new.\<close>

fun putField :: "string \<Rightarrow> bson \<Rightarrow> (string \<times> bson) list \<Rightarrow> (string \<times> bson) list" where
  "putField k v [] = [(k, v)]"
| "putField k v ((k', v') # flds) =
     (if k = k' then (k, v) # flds else (k', v') # putField k v flds)"

text \<open>
  \<^verbatim>\<open>$set\<close> at a dotted path: missing embedded documents on the way are created, a value
  on the way that is not a document makes the driver throw (\<open>None\<close>), and so does an empty
  field name.
\<close>

fun setPath :: "string list \<Rightarrow> bson \<Rightarrow> (string \<times> bson) list \<Rightarrow> (string \<times> bson) list option" where
  "setPath [] v flds = None"
| "setPath [k] v flds = (if k = [] then None else Some (putField k v flds))"
| "setPath (k # k' # ks) v flds =
     (if k = [] then None
      else (case map_of flds k of
              None \<Rightarrow>
                (case setPath (k' # ks) v [] of
                   None \<Rightarrow> None
                 | Some sub' \<Rightarrow> Some (putField k (BDoc sub') flds))
            | Some (BDoc sub) \<Rightarrow>
                (case setPath (k' # ks) v sub of
                   None \<Rightarrow> None
                 | Some sub' \<Rightarrow> Some (putField k (BDoc sub') flds))
            | Some other \<Rightarrow> None))"

text \<open>
  \<^verbatim>\<open>$inc\<close> at a dotted path: as \<^verbatim>\<open>$set\<close> on the way; a missing field is set to the
  amount, a number is increased, any other value makes the driver throw.
\<close>

fun incPath :: "string list \<Rightarrow> int \<Rightarrow> (string \<times> bson) list \<Rightarrow> (string \<times> bson) list option" where
  "incPath [] n flds = None"
| "incPath [k] n flds =
     (if k = [] then None
      else (case map_of flds k of
              None \<Rightarrow> Some (putField k (BNum n) flds)
            | Some (BNum m) \<Rightarrow> Some (putField k (BNum (m + n)) flds)
            | Some other \<Rightarrow> None))"
| "incPath (k # k' # ks) n flds =
     (if k = [] then None
      else (case map_of flds k of
              None \<Rightarrow>
                (case incPath (k' # ks) n [] of
                   None \<Rightarrow> None
                 | Some sub' \<Rightarrow> Some (putField k (BDoc sub') flds))
            | Some (BDoc sub) \<Rightarrow>
                (case incPath (k' # ks) n sub of
                   None \<Rightarrow> None
                 | Some sub' \<Rightarrow> Some (putField k (BDoc sub') flds))
            | Some other \<Rightarrow> None))"


text \<open>An upsert on the singleton creates the document when it is absent.\<close>

definition configOrNew :: "world \<Rightarrow> SystemConfig" where
  "configOrNew w = (case systemconfig w of None \<Rightarrow> emptyConfig | Some c \<Rightarrow> c)"

section \<open>Sync window planner (umami.service.ts, determineSyncWindow)\<close>

text \<open>\<^verbatim>\<open>config?.umamiSync?.lastSuccessfulSync\<close> of the stored singleton.\<close>

definition storedWatermark :: "world \<Rightarrow> instant option" where
  "storedWatermark w = (case systemconfig w of None \<Rightarrow> None | Some c \<Rightarrow> lastSuccessfulSync c)"

text \<open>\<^verbatim>\<open>parseInt(process.env['INITIAL_SYNC_DAYS'] || '7')\<close>: unset and empty are falsy.\<close>

definition initialSyncDays :: "env \<Rightarrow> int option" where
  "initialSyncDays e =
     parseInt (case env_INITIAL_SYNC_DAYS e of
                 None \<Rightarrow> INITIAL_SYNC_DAYS
               | Some v \<Rightarrow> if v = [] then INITIAL_SYNC_DAYS else v)"

text \<open>
  The connection check, the read of the singleton, \<^verbatim>\<open>today = new Date()\<close>, and then the
  two branches. In the first branch \<^verbatim>\<open>Date.now()\<close> is a second clock read. The start date
  is formatted for the log in both branches, which throws RangeError when it is invalid.
\<close>

definition determineSyncWindow :: "env \<Rightarrow> world \<Rightarrow> (error + SyncWindow) \<times> world" where
  "determineSyncWindow e w =
     (if \<not> connection e then (Inl DbNotConnected, w)
      else if store_fails e FindConfig then (Inl StoreError, w)
      else
        (case newDate e w of
           (today, w1) \<Rightarrow>
             (case storedWatermark w of
                None \<Rightarrow>
                  (case newDate e w1 of
                     (now, w2) \<Rightarrow>
                       (case initialSyncDays e of
                          None \<Rightarrow> (Inl RangeError, w2)
                        | Some days \<Rightarrow>
                            (case timeClip (now - days * 24 * 60 * 60 * 1000) of
                               None \<Rightarrow> (Inl RangeError, w2)
                             | Some start \<Rightarrow>
                                 (Inr \<lparr>startDate = start, endDate = today, syncType = initial\<rparr>, w2))))
              | Some lastSyncTime \<Rightarrow>
                  (case timeClip (lastSyncTime - SYNC_BUFFER_HOURS * 60 * 60 * 1000) of
                     None \<Rightarrow> (Inl RangeError, w1)
                   | Some start \<Rightarrow>
                       (Inr \<lparr>startDate = start, endDate = today, syncType = incremental\<rparr>, w1)))))"

section \<open>Session phase (umami.service.ts)\<close>

text \<open>The \<^verbatim>\<open>for (const session of sessions)\<close> loop of updateUserSessionsSequential.\<close>

fun updateUserSessions_loop :: "env \<Rightarrow> MySqlSession list \<Rightarrow> nat \<Rightarrow> world \<Rightarrow> nat \<times> world" where
  "updateUserSessions_loop e [] updatedCount w = (updatedCount, w)"
| "updateUserSessions_loop e (session # rest) updatedCount w =
     (let key = toLowerCase (distinct_id session);
          (now, w1) = newDate e w
      in case users_updateOne e (UpdateUserSession key) (\<lambda>u. email u = key)
                (\<lambda>u. u\<lparr>user_session_id := Some (session_id session), updatedAt := now\<rparr>) w1 of
           (Inr result, w2) \<Rightarrow> updateUserSessions_loop e rest (updatedCount + snd result) w2
         | (Inl err, w2) \<Rightarrow>
             updateUserSessions_loop e rest updatedCount
               (logEvent (LogError ''Failed to update session for user'') w2))"

definition updateUserSessionsSequential ::
  "env \<Rightarrow> MySqlSession list \<Rightarrow> world \<Rightarrow> (error + unit) \<times> world" where
  "updateUserSessionsSequential e sessions w =
     (if \<not> connection e then (Inl DbNotConnected, w)
      else case updateUserSessions_loop e sessions 0 w of
             (updatedCount, w1) \<Rightarrow>
               if updatedCount = 0 then (Inl NoUsersUpdated, w1) else (Inr (), w1))"

text \<open>
  UmamiDbService.getSessionsAfterDate (getSessionsCreatedAfter): the query selects
  \<^verbatim>\<open>session_id, created_at, distinct_id\<close> and each row is mapped to an object with these
  three properties; a failing query is logged and rethrown.
\<close>

definition getSessionsAfterDate ::
  "env \<Rightarrow> instant \<Rightarrow> world \<Rightarrow> (error + MySqlSession list) \<times> world" where
  "getSessionsAfterDate e startD w =
     (case mysql_sessions e startD of
        None \<Rightarrow> (Inl SourceUnavailable, logEvent (LogError ''Error querying Umami sessions'') w)
      | Some result \<Rightarrow>
          (Inr (map (\<lambda>row. \<lparr>session_id = session_id row, created_at = created_at row,
                             distinct_id = distinct_id row\<rparr>) result), w))"

text \<open>
  \<^verbatim>\<open>session.website_id\<close> read from an object built by getSessionsCreatedAfter: the
  property does not exist, the read gives \<^verbatim>\<open>undefined\<close> (\<open>None\<close>).
\<close>

definition read_website_id :: "MySqlSession \<Rightarrow> string option" where
  "read_website_id session = None"

text \<open>\<^verbatim>\<open>ids.includes(v)\<close> on a list of strings: \<^verbatim>\<open>undefined\<close> is no element.\<close>

definition list_includes :: "string list \<Rightarrow> string option \<Rightarrow> bool" where
  "list_includes ids v = (case v of None \<Rightarrow> False | Some x \<Rightarrow> x \<in> set ids)"

definition syncSessionIdsForWindow ::
  "UmamiService \<Rightarrow> env \<Rightarrow> instant \<Rightarrow> instant \<Rightarrow> world \<Rightarrow> (error + unit) \<times> world" where
  "syncSessionIdsForWindow svc e startD endD w =
     (case getSessionsAfterDate e startD w of
        (Inl err, w0) \<Rightarrow> (Inl err, logEvent (LogError ''Session ID sync failed'') w0)
      | (Inr sessions, w0) \<Rightarrow>
          if sessions = [] then (Inr (), w0)
          else
            (let filteredSessions =
                   filter (\<lambda>session. list_includes (api_websiteIds svc) (read_website_id session)) sessions
             in if filteredSessions = [] then (Inr (), w0)
                else case updateUserSessionsSequential e filteredSessions w0 of
                       (Inl err, w1) \<Rightarrow> (Inl err, logEvent (LogError ''Session ID sync failed'') w1)
                     | (Inr u, w1) \<Rightarrow> (Inr (), w1)))"

section \<open>Analytics phase (umami.service.ts)\<close>

definition analyticsOf :: "UmamiSession \<Rightarrow> UmamiAnalytics" where
  "analyticsOf s =
     \<lparr>a_id = us_id s, a_websiteId = us_websiteId s, a_browser = browser s, a_os = os s,
      a_device = device s, a_screen = screen s, a_language = language s,
      a_country = (case country s of None \<Rightarrow> [] | Some v \<Rightarrow> v),
      a_region = (case region s of None \<Rightarrow> [] | Some v \<Rightarrow> v),
      a_city = (case city s of None \<Rightarrow> [] | Some v \<Rightarrow> v),
      a_firstAt = firstAt s, a_lastAt = lastAt s, a_visits = visits s,
      a_views = (if views s = [] then ''0'' else views s), a_createdAt = createdAt s\<rparr>"

definition updateSingleUserAnalytics ::
  "env \<Rightarrow> UmamiSession \<Rightarrow> world \<Rightarrow> (error + nat \<times> nat) \<times> world" where
  "updateSingleUserAnalytics e session w =
     (if \<not> connection e then (Inl DbNotConnected, w)
      else
        (let (now, w1) = newDate e w
         in case users_updateOne e (UpdateUserAnalytics (us_id session))
                   (\<lambda>u. user_session_id u = Some (us_id session))
                   (\<lambda>u. u\<lparr>umamiAnalytics := Some (analyticsOf session), updatedAt := now\<rparr>) w1 of
              (Inl err, w2) \<Rightarrow>
                (Inl err, logEvent (LogError ''Failed to update analytics for session'') w2)
            | (Inr result, w2) \<Rightarrow> (Inr result, w2)))"

text \<open>The inner \<^verbatim>\<open>for (const session of sessions)\<close> loop of the analytics phase.\<close>

fun updateAnalytics_loop :: "env \<Rightarrow> UmamiSession list \<Rightarrow> world \<Rightarrow> world" where
  "updateAnalytics_loop e [] w = w"
| "updateAnalytics_loop e (session # rest) w =
     (case updateSingleUserAnalytics e session w of
        (Inr result, w1) \<Rightarrow> updateAnalytics_loop e rest w1
      | (Inl err, w1) \<Rightarrow>
          updateAnalytics_loop e rest
            (logEvent (LogError ''Failed to update analytics for session'') w1))"

text \<open>
  \<^verbatim>\<open>$set\<close> of the path \<^verbatim>\<open>umamiSync.websiteSyncStatus.${websiteId}\<close>: the website id
  is spliced into the path, so its dots separate path components. Every failure inside the
  \<^verbatim>\<open>try\<close> is logged and swallowed.
\<close>

definition updateWebsiteSyncStatus :: "env \<Rightarrow> string \<Rightarrow> string \<Rightarrow> nat \<Rightarrow> world \<Rightarrow> world" where
  "updateWebsiteSyncStatus e websiteId syncDay processed w =
     (if \<not> connection e then logEvent (LogError ''Failed to update website sync status'') w
      else
        (case newDate e w of
           (now, w1) \<Rightarrow>
             if store_fails e (SetWebsiteStatus websiteId)
             then logEvent (LogError ''Failed to update website sync status'') w1
             else (case setPath (split_dot websiteId) (statusDoc now syncDay processed)
                          (websiteSyncStatus (configOrNew w1)) of
                     None \<Rightarrow> logEvent (LogError ''Failed to update website sync status'') w1
                   | Some statuses \<Rightarrow>
                       w1\<lparr>systemconfig :=
                            Some ((configOrNew w1)\<lparr>websiteSyncStatus := statuses\<rparr>)\<rparr>)))"

text \<open>
  \<^verbatim>\<open>$inc\<close> of the path \<^verbatim>\<open>umamiSync.websiteSyncStatus.${websiteId}.errorCount\<close> by 1.
\<close>

definition incrementWebsiteErrorCount :: "env \<Rightarrow> string \<Rightarrow> world \<Rightarrow> world" where
  "incrementWebsiteErrorCount e websiteId w =
     (if \<not> connection e then logEvent (LogError ''Failed to increment website error count'') w
      else if store_fails e (IncErrorCount websiteId)
      then logEvent (LogError ''Failed to increment website error count'') w
      else (case incPath (split_dot websiteId @ [''errorCount'']) 1
                   (websiteSyncStatus (configOrNew w)) of
              None \<Rightarrow> logEvent (LogError ''Failed to increment website error count'') w
            | Some statuses \<Rightarrow>
                w\<lparr>systemconfig := Some ((configOrNew w)\<lparr>websiteSyncStatus := statuses\<rparr>)\<rparr>))"

text \<open>The body of the \<^verbatim>\<open>for (const websiteId of this.websiteIds)\<close> loop: it never throws.\<close>

definition syncWebsite :: "env \<Rightarrow> instant \<Rightarrow> instant \<Rightarrow> string \<Rightarrow> world \<Rightarrow> world" where
  "syncWebsite e startD endD websiteId w =
     (case fetchAllSessions e websiteId startD endD w of
        (Inl err, w1) \<Rightarrow>
          incrementWebsiteErrorCount e websiteId (logEvent (LogError ''Failed to sync website'') w1)
      | (Inr sessions, w1) \<Rightarrow>
          if sessions = [] then w1
          else updateWebsiteSyncStatus e websiteId (toISODate e endD) (length sessions)
                 (updateAnalytics_loop e sessions w1))"

fun syncWebsites :: "env \<Rightarrow> instant \<Rightarrow> instant \<Rightarrow> string list \<Rightarrow> world \<Rightarrow> world" where
  "syncWebsites e startD endD [] w = w"
| "syncWebsites e startD endD (websiteId # rest) w =
     syncWebsites e startD endD rest (syncWebsite e startD endD websiteId w)"

text \<open>The \<^verbatim>\<open>finally\<close> block clears the token on both exits.\<close>

definition syncAnalyticsDataForWindow ::
  "UmamiService \<Rightarrow> env \<Rightarrow> instant \<Rightarrow> instant \<Rightarrow> world \<Rightarrow> (error + unit) \<times> world" where
  "syncAnalyticsDataForWindow svc e startD endD w =
     (case authenticate e w of
        (Inl err, w1) \<Rightarrow> (Inl err, clearToken (logEvent (LogError ''Analytics sync failed'') w1))
      | (Inr tok, w1) \<Rightarrow> (Inr (), clearToken (syncWebsites e startD endD (websiteIds svc) w1)))"

section \<open>Orchestrator (umami.service.ts, syncAllData)\<close>

definition updateLastSuccessfulSync :: "env \<Rightarrow> instant \<Rightarrow> world \<Rightarrow> world" where
  "updateLastSuccessfulSync e syncStartTime w =
     (if \<not> connection e
      then logEvent (LogError ''Failed to update last successful sync timestamp'') w
      else
        (let (now, w1) = newDate e w
         in if store_fails e SetLastSuccessfulSync
            then logEvent (LogError ''Failed to update last successful sync timestamp'') w1
            else w1\<lparr>systemconfig :=
                      Some ((case systemconfig w1 of
                               None \<Rightarrow> emptyConfig\<lparr>doc_createdAt := Some now, doc_type := Some ''system''\<rparr>
                             | Some c \<Rightarrow> c)
                            \<lparr>lastSuccessfulSync := Some syncStartTime,
                             lastSessionSync := Some syncStartTime,
                             lastAnalyticsSync := Some syncStartTime\<rparr>)\<rparr>))"

definition syncAllData :: "UmamiService \<Rightarrow> env \<Rightarrow> world \<Rightarrow> (error + unit) \<times> world" where
  "syncAllData svc e w =
     (let (syncStartTime, w0) = newDate e w
      in case determineSyncWindow e w0 of
           (Inl err, w1) \<Rightarrow> (Inl err, logEvent (LogError ''Umami sync process failed'') w1)
         | (Inr syncWindow, w1) \<Rightarrow>
             (case syncSessionIdsForWindow svc e (startDate syncWindow) (endDate syncWindow) w1 of
                (Inl err, w2) \<Rightarrow> (Inl err, logEvent (LogError ''Umami sync process failed'') w2)
              | (Inr u, w2) \<Rightarrow>
                  (case syncAnalyticsDataForWindow svc e (startDate syncWindow) (endDate syncWindow) w2 of
                     (Inl err, w3) \<Rightarrow>
                       (Inl err, logEvent (LogError ''Umami sync process failed'') w3)
                   | (Inr u, w3) \<Rightarrow> (Inr (), updateLastSuccessfulSync e syncStartTime w3))))"

section \<open>Observations on a run\<close>

text \<open>How many page requests and how many logins the trace of a world records.\<close>

definition isPageRequest :: "event \<Rightarrow> bool" where
  "isPageRequest ev = (case ev of FetchSessionsPage websiteId pg \<Rightarrow> True | _ \<Rightarrow> False)"

definition pageRequests :: "world \<Rightarrow> nat" where
  "pageRequests w = length (filter isPageRequest (trace w))"

definition authCalls :: "world \<Rightarrow> nat" where
  "authCalls w = length (filter (\<lambda>ev. ev = Authenticate) (trace w))"

text \<open>
  What the store holds below \<^verbatim>\<open>umamiSync.websiteSyncStatus\<close>, and in it for a website:
  the value at the path of its id, one field of it, and its error counter (0 when the field is
  missing or not a number).
\<close>

definition storedStatuses :: "world \<Rightarrow> (string \<times> bson) list" where
  "storedStatuses w = websiteSyncStatus (configOrNew w)"




text \<open>
  Whether the driver accepts a \<^verbatim>\<open>$set\<close>, or a \<^verbatim>\<open>$inc\<close>, at a path of the stored
  document (it does not depend on the value written).
\<close>

definition setApplies :: "string list \<Rightarrow> (string \<times> bson) list \<Rightarrow> bool" where
  "setApplies path flds = (setPath path (BNum 0) flds \<noteq> None)"




section \<open>Concrete environments and worlds\<close>

text \<open>
  A quiet environment (connected store, no failing call, an API whose every page is empty) and
  variations of its API, used to run the model on concrete inputs.
\<close>

definition sampleSession :: UmamiSession where
  "sampleSession =
     \<lparr>us_id = ''s-1'', us_websiteId = ''site-1'', browser = ''firefox'', os = ''linux'',
      device = ''desktop'', screen = ''1920x1080'', language = ''en'', country = None,
      region = None, city = None, firstAt = 1700000000000, lastAt = 1700000000500, visits = 1,
      views = ''3'', createdAt = 1700000000000\<rparr>"

definition quietEnv :: env where
  "quietEnv =
     \<lparr>connection = True, env_INITIAL_SYNC_DAYS = None,
      time_at = (\<lambda>k. 1700000000000 + int k),
      mysql_sessions = (\<lambda>t. Some []),
      api_login = Some ''token'',
      api_sessions = (\<lambda>tok wid s t p psz. Some \<lparr>data = [], total = 0, page = int p, pageSize = psz\<rparr>),
      store_fails = (\<lambda>opn. False),
      toISODate = (\<lambda>t. ''2023-11-14'')\<rparr>"

definition freshWorld :: world where
  "freshWorld = \<lparr>users = [], systemconfig = None, currentToken = None, clock = 0, trace = []\<rparr>"

definition loggedIn :: world where
  "loggedIn = freshWorld\<lparr>currentToken := Some ''token''\<rparr>"

definition pagesOf :: "nat list \<Rightarrow> string \<Rightarrow> string \<Rightarrow> instant \<Rightarrow> instant \<Rightarrow> nat \<Rightarrow> int \<Rightarrow> UmamiApiResponse option" where
  "pagesOf sizes tok wid s t p psz =
     (if 1 \<le> p \<and> p \<le> length sizes
      then Some \<lparr>data = replicate (sizes ! (p - 1)) sampleSession, total = int (sum_list sizes),
                 page = int p, pageSize = psz\<rparr>
      else None)"

definition endlessPages :: "string \<Rightarrow> string \<Rightarrow> instant \<Rightarrow> instant \<Rightarrow> nat \<Rightarrow> int \<Rightarrow> UmamiApiResponse option" where
  "endlessPages tok wid s t p psz =
     Some \<lparr>data = replicate (nat psz) sampleSession, total = 1000000, page = int p, pageSize = psz\<rparr>"

definition cappedPages :: "string \<Rightarrow> string \<Rightarrow> instant \<Rightarrow> instant \<Rightarrow> nat \<Rightarrow> int \<Rightarrow> UmamiApiResponse option" where
  "cappedPages tok wid s t p psz =
     (if p = 1 then Some \<lparr>data = [sampleSession, sampleSession], total = 3, page = 1, pageSize = 2\<rparr>
      else if p = 2 then Some \<lparr>data = [sampleSession], total = 3, page = 2, pageSize = 2\<rparr>
      else None)"

definition syncedWorld :: world where
  "syncedWorld =
     freshWorld\<lparr>systemconfig := Some (emptyConfig\<lparr>lastSuccessfulSync := Some 1700000000000\<rparr>)\<rparr>"

definition noSites :: UmamiService where
  "noSites = \<lparr>websiteIds = [], api_websiteIds = []\<rparr>"

definition oneSite :: UmamiService where
  "oneSite = \<lparr>websiteIds = [''site-1''], api_websiteIds = [''site-1'']\<rparr>"

definition finalWriteFails :: "store_op \<Rightarrow> bool" where
  "finalWriteFails opn = (opn = SetLastSuccessfulSync)"

definition sourceDown :: "instant \<Rightarrow> SessionRow list option" where
  "sourceDown t = None"

definition alice :: User where
  "alice = \<lparr>email = ''alice@example.com'', user_session_id = None, umamiAnalytics = None,
             updatedAt = 1690000000000\<rparr>"

definition rowAlice :: SessionRow where
  "rowAlice = \<lparr>session_id = ''s-1'', created_at = 1699999990000,
                distinct_id = ''Alice@Example.com'', website_id = ''site-1''\<rparr>"

definition rowGhost :: SessionRow where
  "rowGhost = \<lparr>session_id = ''s-2'', created_at = 1699999991000,
                distinct_id = ''ghost@example.com'', website_id = ''site-1''\<rparr>"

definition rowElsewhere :: SessionRow where
  "rowElsewhere = \<lparr>session_id = ''s-3'', created_at = 1699999992000,
                    distinct_id = ''alice@example.com'', website_id = ''site-9''\<rparr>"

definition aliceWorld :: world where
  "aliceWorld = freshWorld\<lparr>users := [alice]\<rparr>"

definition rowsElsewhere :: "instant \<Rightarrow> SessionRow list option" where
  "rowsElsewhere t = Some [rowElsewhere]"

definition rowsConfigured :: "instant \<Rightarrow> SessionRow list option" where
  "rowsConfigured t = Some [rowGhost, rowAlice]"










section \<open>Properties of getWebsiteIds\<close>

lemma split_comma_nonempty: "split_comma s \<noteq> []"
  by (induction s) (auto split: list.splits)

lemma join_split_comma: "join_comma (split_comma s) = s"
proof (induction s)
  case Nil show ?case by simp
next
  case (Cons c cs)
  obtain t ts where r: "split_comma cs = t # ts"
    using split_comma_nonempty[of cs] by (cases "split_comma cs") auto
  show ?case using Cons r by (cases ts) auto
qed

lemma split_comma_no_comma: "t \<in> set (split_comma s) \<Longrightarrow> CHR '','' \<notin> set t"
proof (induction s arbitrary: t)
  case Nil then show ?case by simp
next
  case (Cons c cs)
  obtain u us where r: "split_comma cs = u # us"
    using split_comma_nonempty[of cs] by (cases "split_comma cs") auto
  show ?case using Cons r by (auto split: if_splits)
qed

lemma trim_decomp:
  "\<exists>p q. s = p @ trim s @ q \<and> (\<forall>c\<in>set p. isWhiteSpace c) \<and> (\<forall>c\<in>set q. isWhiteSpace c)"
proof -
  let ?a = "takeWhile isWhiteSpace s"
  let ?m = "dropWhile isWhiteSpace s"
  let ?b = "takeWhile isWhiteSpace (rev ?m)"
  have 1: "s = ?a @ ?m" by simp
  have 2: "rev ?m = ?b @ dropWhile isWhiteSpace (rev ?m)" by simp
  then have "?m = rev (dropWhile isWhiteSpace (rev ?m)) @ rev ?b"
    by (metis rev_append rev_rev_ident)
  then have "s = ?a @ trim s @ rev ?b" using 1 by (simp add: trim_def)
  moreover have "\<forall>c\<in>set ?a. isWhiteSpace c" by (auto dest: set_takeWhileD)
  moreover have "\<forall>c\<in>set (rev ?b). isWhiteSpace c" by (auto dest: set_takeWhileD)
  ultimately show ?thesis by blast
qed

lemma trim_ends:
  assumes ne: "trim s \<noteq> []"
  shows "\<not> isWhiteSpace (hd (trim s)) \<and> \<not> isWhiteSpace (last (trim s))"
proof -
  let ?m = "dropWhile isWhiteSpace s"
  let ?r = "dropWhile isWhiteSpace (rev ?m)"
  have rne: "?r \<noteq> []" using ne by (simp add: trim_def)
  have l: "\<not> isWhiteSpace (hd ?r)" using rne by (rule hd_dropWhile)
  have "last (trim s) = hd ?r" using rne by (simp add: trim_def last_rev)
  then have A: "\<not> isWhiteSpace (last (trim s))" using l by simp
  have mne: "?m \<noteq> []"
  proof
    assume "?m = []"
    then have "?r = []" by (simp only: rev.simps dropWhile.simps)
    then show False using rne by simp
  qed
  have "last ?r = last (rev ?m)"
    using rne by (metis last_appendR takeWhile_dropWhile_id)
  then have "hd (trim s) = hd ?m" using rne mne by (simp add: trim_def hd_rev last_rev)
  moreover have "\<not> isWhiteSpace (hd ?m)" using mne by (rule hd_dropWhile)
  ultimately show ?thesis using A by simp
qed

text \<open>
  Claim C10. For every value of the \<^verbatim>\<open>UMAMI_WEBSITE_IDS\<close> variable (unset is \<open>None\<close>),
  getWebsiteIds returns the comma-separated tokens, each with its surrounding white space
  removed, without the tokens that are empty after trimming. The tokens are the pieces that
  joined by commas give the string back, and none holds a comma; trimming a token removes only
  a white-space prefix and a white-space suffix. No returned id is empty or starts or ends with
  white space, and an unset or empty variable gives the empty list.
\<close>

theorem getWebsiteIds_trimmed_tokens:
  "getWebsiteIds v =
     filter (\<lambda>t. t \<noteq> []) (map trim (split_comma (case v of None \<Rightarrow> [] | Some s \<Rightarrow> s)))
   \<and> join_comma (split_comma (case v of None \<Rightarrow> [] | Some s \<Rightarrow> s))
       = (case v of None \<Rightarrow> [] | Some s \<Rightarrow> s)
   \<and> (\<forall>t\<in>set (split_comma (case v of None \<Rightarrow> [] | Some s \<Rightarrow> s)).
         CHR '','' \<notin> set t
         \<and> (\<exists>p q. t = p @ trim t @ q \<and> (\<forall>c\<in>set p. isWhiteSpace c) \<and> (\<forall>c\<in>set q. isWhiteSpace c)))
   \<and> (\<forall>i\<in>set (getWebsiteIds v). i \<noteq> [] \<and> \<not> isWhiteSpace (hd i) \<and> \<not> isWhiteSpace (last i))
   \<and> getWebsiteIds None = [] \<and> getWebsiteIds (Some []) = []"
proof -
  let ?s = "case v of None \<Rightarrow> [] | Some s \<Rightarrow> s"
  have a: "getWebsiteIds v = filter (\<lambda>t. t \<noteq> []) (map trim (split_comma ?s))"
    by (simp add: getWebsiteIds_def)
  have b: "join_comma (split_comma ?s) = ?s" by (rule join_split_comma)
  have c: "\<forall>t\<in>set (split_comma ?s). CHR '','' \<notin> set t
         \<and> (\<exists>p q. t = p @ trim t @ q \<and> (\<forall>c\<in>set p. isWhiteSpace c) \<and> (\<forall>c\<in>set q. isWhiteSpace c))"
    using split_comma_no_comma trim_decomp by blast
  have d: "\<forall>i\<in>set (getWebsiteIds v). i \<noteq> [] \<and> \<not> isWhiteSpace (hd i) \<and> \<not> isWhiteSpace (last i)"
    unfolding a using trim_ends by auto
  have e: "getWebsiteIds None = []" "getWebsiteIds (Some []) = []"
    by (simp_all add: getWebsiteIds_def trim_def)
  show ?thesis using a b c d e by blast
qed

theorem getWebsiteIds_trimmed_tokens_witness:
  "getWebsiteIds (Some '' site-1 , ,site-2'') = [''site-1'', ''site-2'']
   \<and> join_comma (split_comma '' site-1 , ,site-2'') = '' site-1 , ,site-2''
   \<and> \<not> isWhiteSpace (hd ''site-1'') \<and> \<not> isWhiteSpace (last ''site-2'')"
proof -
  have ev: "getWebsiteIds (Some '' site-1 , ,site-2'') = [''site-1'', ''site-2'']"
    by (simp add: getWebsiteIds_def trim_def isWhiteSpace_def)
  show ?thesis
    using getWebsiteIds_trimmed_tokens [of "Some '' site-1 , ,site-2''"] ev by simp
qed

section \<open>Properties of fetchAllSessions\<close>

lemma getToken_logEvent [simp]: "getToken (logEvent ev w) = getToken w"
  by (simp add: getToken_def logEvent_def)

lemma fetchSessionsPage_ok:
  assumes "getToken w = Inr tok"
    and "api_sessions e tok wid s t p API_PAGE_SIZE = Some r"
  shows "fetchSessionsPage e wid s t p w = (Inr r, logEvent (FetchSessionsPage wid p) w)"
  using assms by (simp add: fetchSessionsPage_def)

lemma fetch_loop_stops:
  assumes tok: "getToken w = Inr tok"
    and ok: "\<forall>q. p \<le> q \<and> q \<le> k \<longrightarrow> api_sessions e tok wid s t q API_PAGE_SIZE = Some (pg q)"
    and full: "\<forall>q. p \<le> q \<and> q < k \<longrightarrow> int (length (data (pg q))) = pageSize (pg q)"
    and last: "k < MAX_PAGES \<longrightarrow> int (length (data (pg k))) \<noteq> pageSize (pg k)"
    and pk: "p \<le> k" and kmax: "k \<le> MAX_PAGES"
  shows "fetchAllSessions_loop e wid s t p acc w =
           (Inr (acc @ concat (map (\<lambda>q. data (pg q)) [p..<Suc k])),
            w\<lparr>trace := trace w @ map (FetchSessionsPage wid) [p..<Suc k]
                 @ (if k = MAX_PAGES then [LogWarn ''Reached maximum page limit, stopping pagination''] else [])\<rparr>)"
  using assms
proof (induction "k - p" arbitrary: p acc w)
  case 0
  then have pk: "p = k" by simp
  have f: "fetchSessionsPage e wid s t k w = (Inr (pg k), logEvent (FetchSessionsPage wid k) w)"
    using fetchSessionsPage_ok[OF "0.prems"(1)] "0.prems"(2) pk by simp
  show ?case
    using "0.prems"(4,6) f pk
    by (subst fetchAllSessions_loop.simps) (auto simp: logEvent_def)
next
  case (Suc n)
  then have lt: "p < k" by simp
  have f: "fetchSessionsPage e wid s t p w = (Inr (pg p), logEvent (FetchSessionsPage wid p) w)"
    using fetchSessionsPage_ok[OF Suc.prems(1)] Suc.prems(2) lt by simp
  have fl: "int (length (data (pg p))) = pageSize (pg p)" using Suc.prems(3) lt by simp
  have IH: "fetchAllSessions_loop e wid s t (Suc p) (acc @ data (pg p)) (logEvent (FetchSessionsPage wid p) w) =
           (Inr ((acc @ data (pg p)) @ concat (map (\<lambda>q. data (pg q)) [Suc p..<Suc k])),
            (logEvent (FetchSessionsPage wid p) w)\<lparr>trace := trace (logEvent (FetchSessionsPage wid p) w) @ map (FetchSessionsPage wid) [Suc p..<Suc k]
                 @ (if k = MAX_PAGES then [LogWarn ''Reached maximum page limit, stopping pagination''] else [])\<rparr>)"
    using Suc.hyps(2) Suc.prems lt
    by (intro Suc.hyps(1)) auto
  have up: "[p..<Suc k] = p # [Suc p..<Suc k]" using lt by (simp add: upt_conv_Cons)
  have step: "fetchAllSessions_loop e wid s t p acc w =
      fetchAllSessions_loop e wid s t (Suc p) (acc @ data (pg p)) (logEvent (FetchSessionsPage wid p) w)"
    using f fl lt Suc.prems(6) by (subst fetchAllSessions_loop.simps) simp
  show ?case
    unfolding step IH by (simp add: logEvent_def up del: upt_Suc)
qed

lemma pageRequests_logEvent:
  "pageRequests (logEvent ev w) = pageRequests w + (if isPageRequest ev then 1 else 0)"
  by (simp add: pageRequests_def logEvent_def)

lemma fetchSessionsPage_requests:
  "pageRequests (snd (fetchSessionsPage e wid s t p w)) \<le> pageRequests w + 1"
  by (auto simp: fetchSessionsPage_def pageRequests_logEvent isPageRequest_def Let_def
           split: sum.splits option.splits)

lemma fetch_loop_requests:
  "pageRequests (snd (fetchAllSessions_loop e wid s t p acc w))
     \<le> pageRequests w + max 1 (Suc MAX_PAGES - p)"
proof (induction e wid s t p acc w rule: fetchAllSessions_loop.induct)
  case (1 e wid s t p acc w)
  obtain r w1 where f: "fetchSessionsPage e wid s t p w = (r, w1)" by (cases "fetchSessionsPage e wid s t p w")
  have b: "pageRequests w1 \<le> pageRequests w + 1"
    using fetchSessionsPage_requests[of e wid s t p w] f by simp
  show ?case
  proof (cases r)
    case (Inl err)
    then show ?thesis using f b by (subst fetchAllSessions_loop.simps) simp
  next
    case (Inr resp)
    show ?thesis
    proof (cases "p + 1 > MAX_PAGES")
      case True
      then show ?thesis using f b Inr
        by (subst fetchAllSessions_loop.simps) (simp add: pageRequests_logEvent isPageRequest_def)
    next
      case False
      note np = this
      show ?thesis
      proof (cases "int (length (data resp)) = pageSize resp")
        case True
        have "pageRequests (snd (fetchAllSessions_loop e wid s t (p + 1) (acc @ data resp) w1))
               \<le> pageRequests w1 + max 1 (Suc MAX_PAGES - (p + 1))"
          using "1.IH"[OF f[symmetric] Inr _ True] np by simp
        then show ?thesis using f b Inr np True
          by (subst fetchAllSessions_loop.simps) auto
      next
        case False
        then show ?thesis using f b Inr np
          by (subst fetchAllSessions_loop.simps) simp
      qed
    qed
  qed
qed

text \<open>
  Claim C7. The pagination loop of fetchAllSessions always ends: the loop is a total function,
  and for every website, window, API and world it makes at most 1000 page requests. When every
  one of the pages 1 to 1000 is returned with as many records as its page size, the adapter
  requests exactly the pages 1 to 1000, logs the warning and returns the records of these pages.
\<close>

theorem fetchAllSessions_page_ceiling:
  "pageRequests (snd (fetchAllSessions e wid s t w)) \<le> pageRequests w + 1000
   \<and> (getToken w = Inr tok
        \<and> (\<forall>q. 1 \<le> q \<and> q \<le> 1000 \<longrightarrow>
               api_sessions e tok wid s t q API_PAGE_SIZE = Some (pg q)
               \<and> int (length (data (pg q))) = pageSize (pg q))
      \<longrightarrow> fetchAllSessions e wid s t w =
            (Inr (concat (map (\<lambda>q. data (pg q)) [1..<1001])),
             w\<lparr>trace := trace w @ map (FetchSessionsPage wid) [1..<1001]
                  @ [LogWarn ''Reached maximum page limit, stopping pagination'']\<rparr>))"
proof (intro conjI impI)
  have "pageRequests (snd (fetchAllSessions_loop e wid s t 1 [] w)) \<le> pageRequests w + max 1 (Suc MAX_PAGES - 1)"
    by (rule fetch_loop_requests)
  then show "pageRequests (snd (fetchAllSessions e wid s t w)) \<le> pageRequests w + 1000"
    by (auto simp: fetchAllSessions_def MAX_PAGES_def pageRequests_logEvent isPageRequest_def
             split: prod.splits sum.splits)
next
  assume a: "getToken w = Inr tok
        \<and> (\<forall>q. 1 \<le> q \<and> q \<le> 1000 \<longrightarrow>
               api_sessions e tok wid s t q API_PAGE_SIZE = Some (pg q)
               \<and> int (length (data (pg q))) = pageSize (pg q))"
  have "fetchAllSessions_loop e wid s t 1 [] w =
           (Inr ([] @ concat (map (\<lambda>q. data (pg q)) [1..<Suc MAX_PAGES])),
            w\<lparr>trace := trace w @ map (FetchSessionsPage wid) [1..<Suc MAX_PAGES]
                 @ (if MAX_PAGES = MAX_PAGES then [LogWarn ''Reached maximum page limit, stopping pagination''] else [])\<rparr>)"
    using a by (intro fetch_loop_stops[where tok = tok]) (auto simp: MAX_PAGES_def)
  then show "fetchAllSessions e wid s t w =
            (Inr (concat (map (\<lambda>q. data (pg q)) [1..<1001])),
             w\<lparr>trace := trace w @ map (FetchSessionsPage wid) [1..<1001]
                  @ [LogWarn ''Reached maximum page limit, stopping pagination'']\<rparr>)"
    by (simp add: fetchAllSessions_def MAX_PAGES_def del: upt_Suc)
qed

theorem fetchAllSessions_page_ceiling_witness:
  "getToken loggedIn = Inr ''token''
   \<and> api_sessions (quietEnv\<lparr>api_sessions := endlessPages\<rparr>) ''token'' ''site-1'' 0 1 1000 API_PAGE_SIZE
       = Some \<lparr>data = replicate 100 sampleSession, total = 1000000, page = 1000, pageSize = 100\<rparr>
   \<and> fetchAllSessions (quietEnv\<lparr>api_sessions := endlessPages\<rparr>) ''site-1'' 0 1 loggedIn =
       (Inr (concat (map (\<lambda>q. replicate 100 sampleSession) [1..<1001])),
        loggedIn\<lparr>trace := map (FetchSessionsPage ''site-1'') [1..<1001]
                  @ [LogWarn ''Reached maximum page limit, stopping pagination'']\<rparr>)"
proof -
  let ?pg = "\<lambda>q. \<lparr>data = replicate 100 sampleSession, total = 1000000, page = int q, pageSize = 100\<rparr>"
  have t: "getToken loggedIn = Inr ''token''"
    by (simp add: getToken_def loggedIn_def freshWorld_def)
  have p: "\<forall>q. 1 \<le> q \<and> q \<le> 1000 \<longrightarrow>
      api_sessions (quietEnv\<lparr>api_sessions := endlessPages\<rparr>) ''token'' ''site-1'' 0 1 q API_PAGE_SIZE
        = Some (?pg q)
      \<and> int (length (data (?pg q))) = pageSize (?pg q)"
    by (simp add: endlessPages_def API_PAGE_SIZE_def)
  have z: "trace loggedIn = []"
    by (simp add: loggedIn_def freshWorld_def)
  have "fetchAllSessions (quietEnv\<lparr>api_sessions := endlessPages\<rparr>) ''site-1'' 0 1 loggedIn =
       (Inr (concat (map (\<lambda>q. data (?pg q)) [1..<1001])),
        loggedIn\<lparr>trace := trace loggedIn @ map (FetchSessionsPage ''site-1'') [1..<1001]
                  @ [LogWarn ''Reached maximum page limit, stopping pagination'']\<rparr>)"
    using fetchAllSessions_page_ceiling
      [of "quietEnv\<lparr>api_sessions := endlessPages\<rparr>" "''site-1''" 0 1 loggedIn "''token''" ?pg]
      t p
    by blast
  then show ?thesis
    using t z by (simp add: endlessPages_def API_PAGE_SIZE_def del: upt_Suc)
qed

text \<open>
  Claim C4, as the code has it. fetchAllSessions requests the pages 1, 2, ... in order and stops
  after page \<open>k\<close> when \<open>k\<close> is the first page whose number of records differs from the
  \<^verbatim>\<open>pageSize\<close> field of its own response, or when \<open>k = 1000\<close>; it returns the records of
  the pages 1 to \<open>k\<close> concatenated in order. For pages of 100, 100 and 37 records from an API
  that reports the page size 100 it stops after the third page with 237 records.
\<close>

theorem fetchAllSessions_pagination:
  assumes "getToken w = Inr tok" and "1 \<le> k" and "k \<le> 1000"
    and "\<forall>q. 1 \<le> q \<and> q \<le> k \<longrightarrow> api_sessions e tok wid s t q API_PAGE_SIZE = Some (pg q)"
    and "\<forall>q. 1 \<le> q \<and> q < k \<longrightarrow> int (length (data (pg q))) = pageSize (pg q)"
    and "k < 1000 \<longrightarrow> int (length (data (pg k))) \<noteq> pageSize (pg k)"
  shows "fetchAllSessions e wid s t w =
           (Inr (concat (map (\<lambda>q. data (pg q)) [1..<Suc k])),
            w\<lparr>trace := trace w @ map (FetchSessionsPage wid) [1..<Suc k]
                 @ (if k = 1000 then [LogWarn ''Reached maximum page limit, stopping pagination''] else [])\<rparr>)"
proof -
  have "fetchAllSessions_loop e wid s t 1 [] w =
           (Inr ([] @ concat (map (\<lambda>q. data (pg q)) [1..<Suc k])),
            w\<lparr>trace := trace w @ map (FetchSessionsPage wid) [1..<Suc k]
                 @ (if k = MAX_PAGES then [LogWarn ''Reached maximum page limit, stopping pagination''] else [])\<rparr>)"
    using assms by (intro fetch_loop_stops[where tok = tok]) (auto simp: MAX_PAGES_def)
  then show ?thesis
    by (simp add: fetchAllSessions_def MAX_PAGES_def del: upt_Suc)
qed

theorem fetchAllSessions_pagination_witness:
  "fetchAllSessions (quietEnv\<lparr>api_sessions := pagesOf [100, 100, 37]\<rparr>) ''site-1'' 0 1 loggedIn =
     (Inr (replicate 100 sampleSession @ replicate 100 sampleSession @ replicate 37 sampleSession),
      loggedIn\<lparr>trace := [FetchSessionsPage ''site-1'' 1, FetchSessionsPage ''site-1'' 2,
                          FetchSessionsPage ''site-1'' 3]\<rparr>)
   \<and> length (replicate 100 sampleSession @ replicate 100 sampleSession @ replicate 37 sampleSession) = 237"
proof -
  let ?pg = "\<lambda>q. \<lparr>data = replicate ([100, 100, 37] ! (q - 1)) sampleSession, total = 237,
                   page = int q, pageSize = 100\<rparr>"
  have t: "getToken loggedIn = Inr ''token''"
    by (simp add: getToken_def loggedIn_def freshWorld_def)
  have a: "\<forall>q. 1 \<le> q \<and> q \<le> 3 \<longrightarrow>
      api_sessions (quietEnv\<lparr>api_sessions := pagesOf [100, 100, 37]\<rparr>) ''token'' ''site-1'' 0 1 q API_PAGE_SIZE
        = Some (?pg q)"
    by (simp add: pagesOf_def API_PAGE_SIZE_def)
  have b: "\<forall>q. 1 \<le> q \<and> q < 3 \<longrightarrow> int (length (data (?pg q))) = pageSize (?pg q)"
  proof (intro allI impI)
    fix q :: nat
    assume "1 \<le> q \<and> q < 3"
    then have "q = 1 \<or> q = 2" by arith
    then show "int (length (data (?pg q))) = pageSize (?pg q)" by auto
  qed
  have c: "(3::nat) < 1000 \<longrightarrow> int (length (data (?pg 3))) \<noteq> pageSize (?pg 3)"
    by simp
  have z: "trace loggedIn = []" by (simp add: loggedIn_def freshWorld_def)
  have u: "[Suc 0..<4] = [Suc 0, 2, 3]" by (simp add: upt_rec)
  show ?thesis
    using fetchAllSessions_pagination
      [of loggedIn "''token''" 3 "quietEnv\<lparr>api_sessions := pagesOf [100, 100, 37]\<rparr>" "''site-1''" 0 1 ?pg, OF t _ _ a b c]
      z
    by (simp add: u del: upt_Suc)
qed

text \<open>
  Claim C4 as stated fails: the first page below holds 2 records, fewer than the 100 requested,
  but reports \<^verbatim>\<open>pageSize = 2\<close>, and the adapter goes on to request page 2.
\<close>

theorem fetchAllSessions_short_page_counterexample:
  "api_sessions (quietEnv\<lparr>api_sessions := cappedPages\<rparr>) ''token'' ''site-1'' 0 1 1 API_PAGE_SIZE
     = Some \<lparr>data = [sampleSession, sampleSession], total = 3, page = 1, pageSize = 2\<rparr>
   \<and> int (length [sampleSession, sampleSession]) < API_PAGE_SIZE
   \<and> fetchAllSessions (quietEnv\<lparr>api_sessions := cappedPages\<rparr>) ''site-1'' 0 1 loggedIn =
       (Inr [sampleSession, sampleSession, sampleSession],
        loggedIn\<lparr>trace := [FetchSessionsPage ''site-1'' 1, FetchSessionsPage ''site-1'' 2]\<rparr>)"
  by (simp add: fetchAllSessions_def fetchAllSessions_loop.simps fetchSessionsPage_def
        getToken_def loggedIn_def freshWorld_def cappedPages_def API_PAGE_SIZE_def
        MAX_PAGES_def logEvent_def)

section \<open>Properties of the sync window planner\<close>

lemma parseInt_default: "parseInt INITIAL_SYNC_DAYS = Some 7"
  by (simp add: parseInt_def INITIAL_SYNC_DAYS_def isWhiteSpace_def isRadixDigit_def
        digitValue_def digitsValue_def)









section \<open>Frame properties of the phases\<close>

lemma authCalls_logEvent:
  "authCalls (logEvent ev w) = authCalls w + (if ev = Authenticate then 1 else 0)"
  by (simp add: authCalls_def logEvent_def)

lemma logEvent_fields [simp]:
  "users (logEvent ev w) = users w"
  "systemconfig (logEvent ev w) = systemconfig w"
  "currentToken (logEvent ev w) = currentToken w"
  "clock (logEvent ev w) = clock w"
  by (simp_all add: logEvent_def)

lemma authCalls_update [simp]:
  "authCalls (w\<lparr>users := us\<rparr>) = authCalls w"
  "authCalls (w\<lparr>systemconfig := c\<rparr>) = authCalls w"
  "authCalls (w\<lparr>currentToken := tk\<rparr>) = authCalls w"
  "authCalls (w\<lparr>clock := n\<rparr>) = authCalls w"
  by (simp_all add: authCalls_def)

lemma storedWatermark_update [simp]:
  "storedWatermark (w\<lparr>users := us\<rparr>) = storedWatermark w"
  "storedWatermark (w\<lparr>trace := tr\<rparr>) = storedWatermark w"
  "storedWatermark (w\<lparr>currentToken := tk\<rparr>) = storedWatermark w"
  "storedWatermark (w\<lparr>clock := n\<rparr>) = storedWatermark w"
  "storedWatermark (logEvent ev w) = storedWatermark w"
  by (simp_all add: storedWatermark_def)

lemma fetchSessionsPage_frame:
  "users (snd (fetchSessionsPage e wid s t p w)) = users w
   \<and> systemconfig (snd (fetchSessionsPage e wid s t p w)) = systemconfig w
   \<and> currentToken (snd (fetchSessionsPage e wid s t p w)) = currentToken w
   \<and> clock (snd (fetchSessionsPage e wid s t p w)) = clock w
   \<and> authCalls (snd (fetchSessionsPage e wid s t p w)) = authCalls w"
  by (auto simp: fetchSessionsPage_def Let_def authCalls_logEvent split: sum.splits option.splits)

lemma fetch_loop_frame:
  "users (snd (fetchAllSessions_loop e wid s t p acc w)) = users w
   \<and> systemconfig (snd (fetchAllSessions_loop e wid s t p acc w)) = systemconfig w
   \<and> currentToken (snd (fetchAllSessions_loop e wid s t p acc w)) = currentToken w
   \<and> clock (snd (fetchAllSessions_loop e wid s t p acc w)) = clock w
   \<and> authCalls (snd (fetchAllSessions_loop e wid s t p acc w)) = authCalls w"
proof (induction e wid s t p acc w rule: fetchAllSessions_loop.induct)
  case (1 e wid s t p acc w)
  obtain r w1 where f: "fetchSessionsPage e wid s t p w = (r, w1)"
    by (cases "fetchSessionsPage e wid s t p w")
  have b: "users w1 = users w \<and> systemconfig w1 = systemconfig w \<and> currentToken w1 = currentToken w
           \<and> clock w1 = clock w \<and> authCalls w1 = authCalls w"
    using fetchSessionsPage_frame[of e wid s t p w] f by simp
  show ?case
  proof (cases r)
    case (Inl err)
    then show ?thesis using f b by (subst (1 2 3 4 5) fetchAllSessions_loop.simps) simp
  next
    case (Inr resp)
    show ?thesis
    proof (cases "\<not> p + 1 > MAX_PAGES \<and> int (length (data resp)) = pageSize resp")
      case True
      then have "users (snd (fetchAllSessions_loop e wid s t (p + 1) (acc @ data resp) w1)) = users w1
   \<and> systemconfig (snd (fetchAllSessions_loop e wid s t (p + 1) (acc @ data resp) w1)) = systemconfig w1
   \<and> currentToken (snd (fetchAllSessions_loop e wid s t (p + 1) (acc @ data resp) w1)) = currentToken w1
   \<and> clock (snd (fetchAllSessions_loop e wid s t (p + 1) (acc @ data resp) w1)) = clock w1
   \<and> authCalls (snd (fetchAllSessions_loop e wid s t (p + 1) (acc @ data resp) w1)) = authCalls w1"
        using "1.IH"[OF f[symmetric] Inr] by simp
      then show ?thesis using f b Inr True
        by (subst (1 2 3 4 5) fetchAllSessions_loop.simps) simp
    next
      case False
      then show ?thesis using f b Inr
        by (subst (1 2 3 4 5) fetchAllSessions_loop.simps) (auto simp: authCalls_logEvent)
    qed
  qed
qed

lemma fetchAllSessions_frame:
  "users (snd (fetchAllSessions e wid s t w)) = users w
   \<and> systemconfig (snd (fetchAllSessions e wid s t w)) = systemconfig w
   \<and> currentToken (snd (fetchAllSessions e wid s t w)) = currentToken w
   \<and> clock (snd (fetchAllSessions e wid s t w)) = clock w
   \<and> authCalls (snd (fetchAllSessions e wid s t w)) = authCalls w"
  using fetch_loop_frame[of e wid s t 1 "[]" w]
  by (auto simp: fetchAllSessions_def authCalls_logEvent split: prod.splits sum.splits)

lemma storedStatuses_update [simp]:
  "storedStatuses (w\<lparr>users := us\<rparr>) = storedStatuses w"
  "storedStatuses (w\<lparr>trace := tr\<rparr>) = storedStatuses w"
  "storedStatuses (w\<lparr>currentToken := tk\<rparr>) = storedStatuses w"
  "storedStatuses (w\<lparr>clock := n\<rparr>) = storedStatuses w"
  "storedStatuses (logEvent ev w) = storedStatuses w"
  by (simp_all add: storedStatuses_def configOrNew_def)


lemma storedWatermark_cong: "systemconfig w' = systemconfig w \<Longrightarrow> storedWatermark w' = storedWatermark w"
  by (simp add: storedWatermark_def)

lemma users_updateOne_frame:
  "systemconfig (snd (users_updateOne e opn p f w)) = systemconfig w
   \<and> currentToken (snd (users_updateOne e opn p f w)) = currentToken w
   \<and> clock (snd (users_updateOne e opn p f w)) = clock w
   \<and> trace (snd (users_updateOne e opn p f w)) = trace w"
  by (simp add: users_updateOne_def split: prod.splits)

lemma updateSingleUserAnalytics_frame:
  "systemconfig (snd (updateSingleUserAnalytics e x w)) = systemconfig w
   \<and> currentToken (snd (updateSingleUserAnalytics e x w)) = currentToken w
   \<and> authCalls (snd (updateSingleUserAnalytics e x w)) = authCalls w"
proof -
  obtain r w2 where u: "users_updateOne e (UpdateUserAnalytics (us_id x))
                   (\<lambda>u. user_session_id u = Some (us_id x))
                   (\<lambda>u. u\<lparr>umamiAnalytics := Some (analyticsOf x), updatedAt := time_at e (clock w)\<rparr>)
                   (w\<lparr>clock := Suc (clock w)\<rparr>) = (r, w2)"
    by (cases "users_updateOne e (UpdateUserAnalytics (us_id x))
                   (\<lambda>u. user_session_id u = Some (us_id x))
                   (\<lambda>u. u\<lparr>umamiAnalytics := Some (analyticsOf x), updatedAt := time_at e (clock w)\<rparr>)
                   (w\<lparr>clock := Suc (clock w)\<rparr>)")
  have fr: "systemconfig w2 = systemconfig w \<and> currentToken w2 = currentToken w \<and> trace w2 = trace w"
    using users_updateOne_frame[of e "UpdateUserAnalytics (us_id x)" "\<lambda>u. user_session_id u = Some (us_id x)"
        "\<lambda>u. u\<lparr>umamiAnalytics := Some (analyticsOf x), updatedAt := time_at e (clock w)\<rparr>" "w\<lparr>clock := Suc (clock w)\<rparr>"] u
    by simp
  then have "authCalls w2 = authCalls w" by (simp add: authCalls_def)
  then show ?thesis using u fr
    by (auto simp: updateSingleUserAnalytics_def newDate_def authCalls_logEvent split: sum.splits)
qed

lemma updateAnalytics_loop_frame:
  "systemconfig (updateAnalytics_loop e xs w) = systemconfig w
   \<and> currentToken (updateAnalytics_loop e xs w) = currentToken w
   \<and> authCalls (updateAnalytics_loop e xs w) = authCalls w"
proof (induction xs arbitrary: w)
  case Nil show ?case by simp
next
  case (Cons x xs)
  obtain r w1 where u: "updateSingleUserAnalytics e x w = (r, w1)"
    by (cases "updateSingleUserAnalytics e x w")
  have fr: "systemconfig w1 = systemconfig w \<and> currentToken w1 = currentToken w \<and> authCalls w1 = authCalls w"
    using updateSingleUserAnalytics_frame[of e x w] u by simp
  show ?case using u fr Cons.IH
    by (cases r) (simp_all add: authCalls_logEvent)
qed

lemma updateWebsiteSyncStatus_frame:
  "currentToken (updateWebsiteSyncStatus e wid d n w) = currentToken w
   \<and> authCalls (updateWebsiteSyncStatus e wid d n w) = authCalls w
   \<and> users (updateWebsiteSyncStatus e wid d n w) = users w
   \<and> storedWatermark (updateWebsiteSyncStatus e wid d n w) = storedWatermark w"
  by (auto simp: updateWebsiteSyncStatus_def newDate_def authCalls_logEvent storedWatermark_def
        configOrNew_def emptyConfig_def split: option.splits)

lemma incrementWebsiteErrorCount_frame:
  "currentToken (incrementWebsiteErrorCount e wid w) = currentToken w
   \<and> authCalls (incrementWebsiteErrorCount e wid w) = authCalls w
   \<and> users (incrementWebsiteErrorCount e wid w) = users w
   \<and> storedWatermark (incrementWebsiteErrorCount e wid w) = storedWatermark w"
  by (auto simp: incrementWebsiteErrorCount_def authCalls_logEvent storedWatermark_def
        configOrNew_def emptyConfig_def split: option.splits)

lemma syncWebsite_frame:
  "currentToken (syncWebsite e s t wid w) = currentToken w
   \<and> authCalls (syncWebsite e s t wid w) = authCalls w
   \<and> storedWatermark (syncWebsite e s t wid w) = storedWatermark w"
proof -
  obtain r w1 where f: "fetchAllSessions e wid s t w = (r, w1)"
    by (cases "fetchAllSessions e wid s t w")
  have fr: "systemconfig w1 = systemconfig w \<and> currentToken w1 = currentToken w \<and> authCalls w1 = authCalls w"
    using fetchAllSessions_frame[of e wid s t w] f by simp
  show ?thesis
  proof (cases r)
    case (Inl err)
    then show ?thesis
      using f fr incrementWebsiteErrorCount_frame[of e wid "logEvent (LogError ''Failed to sync website'') w1"]
      by (simp add: syncWebsite_def authCalls_logEvent storedWatermark_cong[OF conjunct1[OF fr]])
  next
    case (Inr xs)
    have lf: "systemconfig (updateAnalytics_loop e xs w1) = systemconfig w
       \<and> currentToken (updateAnalytics_loop e xs w1) = currentToken w
       \<and> authCalls (updateAnalytics_loop e xs w1) = authCalls w"
      using updateAnalytics_loop_frame[of e xs w1] fr by simp
    show ?thesis
      using f fr Inr lf updateWebsiteSyncStatus_frame[of e wid "toISODate e t" "length xs" "updateAnalytics_loop e xs w1"]
      by (simp add: syncWebsite_def storedWatermark_cong[OF conjunct1[OF fr]]
            storedWatermark_cong[OF conjunct1[OF lf]])
  qed
qed

lemma syncWebsites_frame:
  "currentToken (syncWebsites e s t wids w) = currentToken w
   \<and> authCalls (syncWebsites e s t wids w) = authCalls w
   \<and> storedWatermark (syncWebsites e s t wids w) = storedWatermark w"
proof (induction wids arbitrary: w)
  case Nil show ?case by simp
next
  case (Cons a wids)
  show ?case
    using Cons.IH[of "syncWebsite e s t a w"] syncWebsite_frame[of e s t a w] by auto
qed

lemma analytics_phase_frame:
  "authCalls (snd (syncAnalyticsDataForWindow svc e s t w)) = authCalls w + 1
   \<and> currentToken (snd (syncAnalyticsDataForWindow svc e s t w)) = None"
proof (cases "api_login e")
  case None
  then show ?thesis
    by (simp add: syncAnalyticsDataForWindow_def authenticate_def clearToken_def authCalls_logEvent)
next
  case (Some tok)
  have "authCalls (syncWebsites e s t (websiteIds svc) ((logEvent Authenticate w)\<lparr>currentToken := Some tok\<rparr>))
        = authCalls ((logEvent Authenticate w)\<lparr>currentToken := Some tok\<rparr>)"
    using syncWebsites_frame by blast
  then show ?thesis using Some
    by (simp add: syncAnalyticsDataForWindow_def authenticate_def clearToken_def authCalls_logEvent)
qed

lemma updateFirst_none:
  "find p us = None \<Longrightarrow> updateFirst p f us = ((0, 0), us)"
  by (induction us) (auto split: if_splits)

lemma updateFirst_some:
  "find p us = Some u \<Longrightarrow> fst (updateFirst p f us) = (1, if f u = u then 0 else 1)"
  by (induction us) (auto split: if_splits prod.splits)

lemma updateFirst_unmodified:
  "snd (fst (updateFirst p f us)) = 0 \<Longrightarrow> snd (updateFirst p f us) = us"
  by (induction us) (auto split: if_splits prod.splits)

lemma newDate_fields [simp]:
  "users (snd (newDate e w)) = users w"
  "systemconfig (snd (newDate e w)) = systemconfig w"
  "currentToken (snd (newDate e w)) = currentToken w"
  "trace (snd (newDate e w)) = trace w"
  "fst (newDate e w) = time_at e (clock w)"
  by (simp_all add: newDate_def)

lemma sessions_loop_frame:
  "systemconfig (snd (updateUserSessions_loop e ss n w)) = systemconfig w
   \<and> currentToken (snd (updateUserSessions_loop e ss n w)) = currentToken w
   \<and> authCalls (snd (updateUserSessions_loop e ss n w)) = authCalls w
   \<and> n \<le> fst (updateUserSessions_loop e ss n w)"
proof (induction ss arbitrary: n w)
  case Nil show ?case by simp
next
  case (Cons x ss)
  let ?key = "toLowerCase (distinct_id x)"
  let ?w1 = "w\<lparr>clock := Suc (clock w)\<rparr>"
  let ?f = "\<lambda>u. u\<lparr>user_session_id := Some (session_id x), updatedAt := time_at e (clock w)\<rparr>"
  obtain r w2 where u: "users_updateOne e (UpdateUserSession ?key) (\<lambda>u. email u = ?key) ?f ?w1 = (r, w2)"
    by (cases "users_updateOne e (UpdateUserSession ?key) (\<lambda>u. email u = ?key) ?f ?w1")
  have fr: "systemconfig w2 = systemconfig w \<and> currentToken w2 = currentToken w \<and> trace w2 = trace w"
    using users_updateOne_frame[of e "UpdateUserSession ?key" "\<lambda>u. email u = ?key" ?f ?w1] u by simp
  then have ac: "authCalls w2 = authCalls w" by (simp add: authCalls_def)
  show ?case
  proof (cases r)
    case (Inl err)
    show ?thesis
      using u Inl fr ac Cons.IH[of n "logEvent (LogError ''Failed to update session for user'') w2"]
      by (simp add: newDate_def Let_def authCalls_logEvent)
  next
    case (Inr res)
    show ?thesis
      using u Inr fr ac Cons.IH[of "n + snd res" w2]
      by (simp add: newDate_def Let_def)
  qed
qed

lemma sessions_loop_unmatched:
  "\<forall>x\<in>set ss. \<forall>u\<in>set (users w). email u \<noteq> toLowerCase (distinct_id x)
   \<Longrightarrow> fst (updateUserSessions_loop e ss n w) = n
       \<and> users (snd (updateUserSessions_loop e ss n w)) = users w"
proof (induction ss arbitrary: n w)
  case Nil show ?case by simp
next
  case (Cons x ss)
  let ?key = "toLowerCase (distinct_id x)"
  have nf: "find (\<lambda>u. email u = ?key) (users w) = None"
    using Cons.prems by (auto simp: find_None_iff)
  show ?case
  proof (cases "store_fails e (UpdateUserSession ?key)")
    case True
    then show ?thesis
      using Cons.IH[of "logEvent (LogError ''Failed to update session for user'') (w\<lparr>clock := Suc (clock w)\<rparr>)" n] Cons.prems
      by (simp add: newDate_def Let_def users_updateOne_def)
  next
    case False
    then show ?thesis
      using Cons.IH[of "w\<lparr>clock := Suc (clock w)\<rparr>" n] Cons.prems nf
      by (simp add: newDate_def Let_def users_updateOne_def updateFirst_none)
  qed
qed

lemma sessions_loop_effective:
  "x \<in> set ss \<Longrightarrow> \<not> store_fails e (UpdateUserSession (toLowerCase (distinct_id x)))
   \<Longrightarrow> find (\<lambda>u. email u = toLowerCase (distinct_id x)) (users w) = Some u
   \<Longrightarrow> user_session_id u \<noteq> Some (session_id x)
   \<Longrightarrow> n < fst (updateUserSessions_loop e ss n w)"
proof (induction ss arbitrary: n w)
  case Nil then show ?case by simp
next
  case (Cons y ss)
  let ?key = "toLowerCase (distinct_id y)"
  let ?w1 = "w\<lparr>clock := Suc (clock w)\<rparr>"
  let ?f = "\<lambda>u. u\<lparr>user_session_id := Some (session_id y), updatedAt := time_at e (clock w)\<rparr>"
  let ?p = "\<lambda>u. email u = ?key"
  show ?case
  proof (cases "store_fails e (UpdateUserSession ?key)")
    case True
    then have ne: "x \<noteq> y" using Cons.prems(2) by auto
    then have xin: "x \<in> set ss" using Cons.prems(1) by simp
    have "n < fst (updateUserSessions_loop e ss n (logEvent (LogError ''Failed to update session for user'') ?w1))"
      using Cons.IH[OF xin Cons.prems(2)] Cons.prems(3,4) by simp
    then show ?thesis using True by (simp add: newDate_def Let_def users_updateOne_def)
  next
    case False
    obtain res us' where uf: "updateFirst ?p ?f (users w) = (res, us')"
      by (cases "updateFirst ?p ?f (users w)")
    have step: "updateUserSessions_loop e (y # ss) n w =
                updateUserSessions_loop e ss (n + snd res) (?w1\<lparr>users := us'\<rparr>)"
      using False uf by (simp add: newDate_def Let_def users_updateOne_def)
    show ?thesis
    proof (cases "snd res = 0")
      case True
      then have same: "us' = users w" using updateFirst_unmodified[of ?p ?f "users w"] uf by simp
      have ne: "x \<noteq> y"
      proof
        assume "x = y"
        then have "fst (updateFirst ?p ?f (users w)) = (1, if ?f u = u then 0 else 1)"
          using updateFirst_some[of ?p "users w" u ?f] Cons.prems(3) by simp
        moreover have "?f u \<noteq> u"
        proof
          assume "?f u = u"
          then have "user_session_id (?f u) = user_session_id u" by simp
          then show False using Cons.prems(4) \<open>x = y\<close> by simp
        qed
        ultimately show False using uf True by simp
      qed
      then have xin: "x \<in> set ss" using Cons.prems(1) by simp
      have "n < fst (updateUserSessions_loop e ss n (?w1\<lparr>users := us'\<rparr>))"
        using Cons.IH[OF xin Cons.prems(2)] Cons.prems(3,4) same by simp
      then show ?thesis using step True by simp
    next
      case False
      have "n + snd res \<le> fst (updateUserSessions_loop e ss (n + snd res) (?w1\<lparr>users := us'\<rparr>))"
        using sessions_loop_frame by blast
      then show ?thesis using step False by simp
    qed
  qed
qed

lemma determineSyncWindow_frame:
  "users (snd (determineSyncWindow e w)) = users w
   \<and> systemconfig (snd (determineSyncWindow e w)) = systemconfig w
   \<and> currentToken (snd (determineSyncWindow e w)) = currentToken w
   \<and> trace (snd (determineSyncWindow e w)) = trace w"
  by (simp add: determineSyncWindow_def newDate_def split: option.splits)

lemma determineSyncWindow_connected:
  "fst (determineSyncWindow e w) = Inr win \<Longrightarrow> connection e"
  by (simp add: determineSyncWindow_def split: if_splits)

lemma updateUserSessionsSequential_frame:
  "systemconfig (snd (updateUserSessionsSequential e ss w)) = systemconfig w
   \<and> currentToken (snd (updateUserSessionsSequential e ss w)) = currentToken w
   \<and> authCalls (snd (updateUserSessionsSequential e ss w)) = authCalls w"
  using sessions_loop_frame[of e ss 0 w]
  by (auto simp: updateUserSessionsSequential_def split: prod.splits)

lemma syncSessionIdsForWindow_frame:
  "systemconfig (snd (syncSessionIdsForWindow svc e s t w)) = systemconfig w
   \<and> currentToken (snd (syncSessionIdsForWindow svc e s t w)) = currentToken w
   \<and> authCalls (snd (syncSessionIdsForWindow svc e s t w)) = authCalls w"
  by (auto simp: syncSessionIdsForWindow_def getSessionsAfterDate_def read_website_id_def
        list_includes_def authCalls_logEvent split: option.splits)

lemma analytics_login_failed:
  "api_login e = None \<Longrightarrow>
   fst (syncAnalyticsDataForWindow svc e s t w) = Inl ApiAuthFailed
   \<and> systemconfig (snd (syncAnalyticsDataForWindow svc e s t w)) = systemconfig w"
  by (simp add: syncAnalyticsDataForWindow_def authenticate_def clearToken_def)

lemma analytics_login_ok:
  "api_login e = Some tok \<Longrightarrow>
   syncAnalyticsDataForWindow svc e s t w =
     (Inr (), clearToken (syncWebsites e s t (websiteIds svc)
                 ((logEvent Authenticate w)\<lparr>currentToken := Some tok\<rparr>)))"
  by (simp add: syncAnalyticsDataForWindow_def authenticate_def)

lemma analytics_watermark:
  "storedWatermark (snd (syncAnalyticsDataForWindow svc e s t w)) = storedWatermark w"
proof (cases "api_login e")
  case None
  then show ?thesis using analytics_login_failed[of e svc s t w] by (simp add: storedWatermark_def)
next
  case (Some tok)
  have "storedWatermark (syncWebsites e s t (websiteIds svc) ((logEvent Authenticate w)\<lparr>currentToken := Some tok\<rparr>))
        = storedWatermark ((logEvent Authenticate w)\<lparr>currentToken := Some tok\<rparr>)"
    using syncWebsites_frame by blast
  then show ?thesis using Some by (simp add: analytics_login_ok clearToken_def)
qed

lemma updateLastSuccessfulSync_written:
  "connection e \<Longrightarrow> \<not> store_fails e SetLastSuccessfulSync \<Longrightarrow>
   storedWatermark (updateLastSuccessfulSync e t0 w) = Some t0"
  by (simp add: updateLastSuccessfulSync_def newDate_def storedWatermark_def)

lemma updateLastSuccessfulSync_swallowed:
  "\<not> connection e \<or> store_fails e SetLastSuccessfulSync \<Longrightarrow>
   systemconfig (updateLastSuccessfulSync e t0 w) = systemconfig w"
  by (auto simp: updateLastSuccessfulSync_def newDate_def)


lemma updateLastSuccessfulSync_authCalls:
  "authCalls (updateLastSuccessfulSync e t0 w) = authCalls w"
  by (auto simp: updateLastSuccessfulSync_def newDate_def authCalls_logEvent)

text \<open>The run after a successful planning and session phase.\<close>

lemma syncAllData_after_sessions:
  assumes "determineSyncWindow e (snd (newDate e w)) = (Inr win, w1)"
    and "syncSessionIdsForWindow svc e (startDate win) (endDate win) w1 = (Inr u, w2)"
  shows "syncAllData svc e w =
           (case syncAnalyticsDataForWindow svc e (startDate win) (endDate win) w2 of
              (Inl err, w3) \<Rightarrow> (Inl err, logEvent (LogError ''Umami sync process failed'') w3)
            | (Inr u, w3) \<Rightarrow> (Inr (), updateLastSuccessfulSync e (time_at e (clock w)) w3))"
  using assms by (simp add: syncAllData_def newDate_def)

lemma syncAllData_plan_failed:
  assumes "fst (determineSyncWindow e (snd (newDate e w))) = Inl err"
  shows "fst (syncAllData svc e w) = Inl err
         \<and> storedWatermark (snd (syncAllData svc e w)) = storedWatermark w"
proof -
  obtain w1 where d: "determineSyncWindow e (snd (newDate e w)) = (Inl err, w1)"
    using assms by (cases "determineSyncWindow e (snd (newDate e w))") simp
  have "systemconfig w1 = systemconfig w"
    using determineSyncWindow_frame[of e "snd (newDate e w)"] d by simp
  then show ?thesis using d
    by (simp add: syncAllData_def newDate_def storedWatermark_def)
qed

lemma syncAllData_sessions_failed:
  assumes "determineSyncWindow e (snd (newDate e w)) = (Inr win, w1)"
    and "fst (syncSessionIdsForWindow svc e (startDate win) (endDate win) w1) = Inl err"
  shows "fst (syncAllData svc e w) = Inl err
         \<and> storedWatermark (snd (syncAllData svc e w)) = storedWatermark w"
proof -
  obtain w2 where d: "syncSessionIdsForWindow svc e (startDate win) (endDate win) w1 = (Inl err, w2)"
    using assms(2) by (cases "syncSessionIdsForWindow svc e (startDate win) (endDate win) w1") simp
  have "systemconfig w1 = systemconfig w"
    using determineSyncWindow_frame[of e "snd (newDate e w)"] assms(1) by simp
  moreover have "systemconfig w2 = systemconfig w1"
    using syncSessionIdsForWindow_frame[of svc e "startDate win" "endDate win" w1] d by simp
  ultimately show ?thesis using d assms(1)
    by (simp add: syncAllData_def newDate_def storedWatermark_def)
qed

lemma syncAllData_completed:
  assumes "determineSyncWindow e (snd (newDate e w)) = (Inr win, w1)"
    and "syncSessionIdsForWindow svc e (startDate win) (endDate win) w1 = (Inr u, w2)"
    and "syncAnalyticsDataForWindow svc e (startDate win) (endDate win) w2 = (Inr u', w3)"
  shows "fst (syncAllData svc e w) = Inr ()
         \<and> (\<not> store_fails e SetLastSuccessfulSync \<longrightarrow>
              storedWatermark (snd (syncAllData svc e w)) = Some (time_at e (clock w)))
         \<and> (store_fails e SetLastSuccessfulSync \<longrightarrow>
              storedWatermark (snd (syncAllData svc e w)) = storedWatermark w)"
proof -
  have c: "connection e"
    using determineSyncWindow_connected[of e "snd (newDate e w)" win] assms(1) by simp
  have r: "syncAllData svc e w = (Inr (), updateLastSuccessfulSync e (time_at e (clock w)) w3)"
    using syncAllData_after_sessions[OF assms(1,2)] assms(3) by simp
  have "systemconfig w1 = systemconfig w"
    using determineSyncWindow_frame[of e "snd (newDate e w)"] assms(1) by simp
  moreover have "systemconfig w2 = systemconfig w1"
    using syncSessionIdsForWindow_frame[of svc e "startDate win" "endDate win" w1] assms(2) by simp
  moreover have "storedWatermark w3 = storedWatermark w2"
    using analytics_watermark[of svc e "startDate win" "endDate win" w2] assms(3) by simp
  ultimately have k: "storedWatermark w3 = storedWatermark w" by (simp add: storedWatermark_def)
  show ?thesis
    using r c k updateLastSuccessfulSync_written[of e "time_at e (clock w)" w3]
      updateLastSuccessfulSync_swallowed[of e "time_at e (clock w)" w3]
    by (auto simp: storedWatermark_def)
qed

lemma syncAllData_authCalls_after_sessions:
  assumes "determineSyncWindow e (snd (newDate e w)) = (Inr win, w1)"
    and "syncSessionIdsForWindow svc e (startDate win) (endDate win) w1 = (Inr u, w2)"
  shows "authCalls (snd (syncAllData svc e w)) = authCalls w + 1"
proof -
  have a1: "authCalls w1 = authCalls w"
    using determineSyncWindow_frame[of e "snd (newDate e w)"] assms(1)
    by (simp add: authCalls_def)
  have a2: "authCalls w2 = authCalls w1"
    using syncSessionIdsForWindow_frame[of svc e "startDate win" "endDate win" w1] assms(2) by simp
  obtain r w3 where an: "syncAnalyticsDataForWindow svc e (startDate win) (endDate win) w2 = (r, w3)"
    by (cases "syncAnalyticsDataForWindow svc e (startDate win) (endDate win) w2")
  have a3: "authCalls w3 = authCalls w2 + 1"
    using analytics_phase_frame[of svc e "startDate win" "endDate win" w2] an by simp
  show ?thesis
    using syncAllData_after_sessions[OF assms] an a1 a2 a3
    by (cases r) (simp_all add: authCalls_logEvent updateLastSuccessfulSync_authCalls)
qed


section \<open>Properties of a whole run\<close>


text \<open>
  Claim C1, as the code has it. When planning, the session phase and the analytics phase all
  complete without throwing, the run returns normally; the stored watermark is then the
  run-start instant (the clock read made when syncAllData began) if the final store write
  succeeds, and keeps its previous value if that write throws, since the failure is logged and
  swallowed. When planning throws, or the session phase throws, the same error is the result of
  the run and the watermark keeps its previous value.
\<close>

theorem syncAllData_watermark:
  "(determineSyncWindow e (snd (newDate e w)) = (Inr win, w1)
      \<and> syncSessionIdsForWindow svc e (startDate win) (endDate win) w1 = (Inr u, w2)
      \<and> syncAnalyticsDataForWindow svc e (startDate win) (endDate win) w2 = (Inr u', w3)
    \<longrightarrow> fst (syncAllData svc e w) = Inr ()
        \<and> (\<not> store_fails e SetLastSuccessfulSync \<longrightarrow>
              storedWatermark (snd (syncAllData svc e w)) = Some (time_at e (clock w)))
        \<and> (store_fails e SetLastSuccessfulSync \<longrightarrow>
              storedWatermark (snd (syncAllData svc e w)) = storedWatermark w))
   \<and> (fst (determineSyncWindow e (snd (newDate e w))) = Inl err
    \<longrightarrow> fst (syncAllData svc e w) = Inl err
        \<and> storedWatermark (snd (syncAllData svc e w)) = storedWatermark w)
   \<and> (determineSyncWindow e (snd (newDate e w)) = (Inr win, w1)
      \<and> fst (syncSessionIdsForWindow svc e (startDate win) (endDate win) w1) = Inl err
    \<longrightarrow> fst (syncAllData svc e w) = Inl err
        \<and> storedWatermark (snd (syncAllData svc e w)) = storedWatermark w)"
  using syncAllData_completed[of e w win w1 svc u w2 u' w3]
    syncAllData_plan_failed[of e w err svc]
    syncAllData_sessions_failed[of e w win w1 svc err]
  by blast

text \<open>The quiet environment planned and run from the fresh world, with no website.\<close>

lemma plan_quiet:
  "connection e \<Longrightarrow> \<not> store_fails e FindConfig \<Longrightarrow> env_INITIAL_SYNC_DAYS e = None
   \<Longrightarrow> time_at e = time_at quietEnv \<Longrightarrow>
   determineSyncWindow e (snd (newDate e freshWorld)) =
     (Inr \<lparr>startDate = 1699395200002, endDate = 1700000000001, syncType = initial\<rparr>,
      freshWorld\<lparr>clock := 3\<rparr>)"
  by (simp add: determineSyncWindow_def newDate_def storedWatermark_def freshWorld_def
        initialSyncDays_def parseInt_default timeClip_def maxTime_def quietEnv_def)

lemma run_quiet_noSites:
  assumes "connection e" "\<not> store_fails e FindConfig" "env_INITIAL_SYNC_DAYS e = None"
    "time_at e = time_at quietEnv" "mysql_sessions e = mysql_sessions quietEnv"
    "api_login e = Some ''token''"
  shows "syncSessionIdsForWindow noSites e 1699395200002 1700000000001 (freshWorld\<lparr>clock := 3\<rparr>)
           = (Inr (), freshWorld\<lparr>clock := 3\<rparr>)"
    and "syncAnalyticsDataForWindow noSites e 1699395200002 1700000000001 (freshWorld\<lparr>clock := 3\<rparr>)
           = (Inr (), freshWorld\<lparr>clock := 3, trace := [Authenticate]\<rparr>)"
  using assms
  by (simp_all add: syncSessionIdsForWindow_def getSessionsAfterDate_def quietEnv_def
        analytics_login_ok noSites_def clearToken_def logEvent_def freshWorld_def)

text \<open>
  Claim C1 as stated fails: with a final store write that throws, both phases complete, the
  run returns normally, and no watermark is stored although the run began at 1700000000000.
\<close>

theorem syncAllData_watermark_counterexample:
  "fst (syncAllData noSites (quietEnv\<lparr>store_fails := finalWriteFails\<rparr>) freshWorld) = Inr ()
   \<and> time_at (quietEnv\<lparr>store_fails := finalWriteFails\<rparr>) (clock freshWorld) = 1700000000000
   \<and> storedWatermark (snd (syncAllData noSites (quietEnv\<lparr>store_fails := finalWriteFails\<rparr>) freshWorld)) = None"
proof -
  let ?e = "quietEnv\<lparr>store_fails := finalWriteFails\<rparr>"
  have c: "connection ?e" "\<not> store_fails ?e FindConfig" "env_INITIAL_SYNC_DAYS ?e = None"
    "time_at ?e = time_at quietEnv" "mysql_sessions ?e = mysql_sessions quietEnv"
    "api_login ?e = Some ''token''"
    by (simp_all add: quietEnv_def finalWriteFails_def)
  have f: "store_fails ?e SetLastSuccessfulSync" by (simp add: finalWriteFails_def)
  have t: "time_at ?e (clock freshWorld) = 1700000000000" by (simp add: quietEnv_def freshWorld_def)
  have w: "storedWatermark freshWorld = None" by (simp add: storedWatermark_def freshWorld_def)
  show ?thesis
    using syncAllData_completed
        [of ?e freshWorld "\<lparr>startDate = 1699395200002, endDate = 1700000000001, syncType = initial\<rparr>"
            "freshWorld\<lparr>clock := 3\<rparr>" noSites "()" "freshWorld\<lparr>clock := 3\<rparr>" "()"
            "freshWorld\<lparr>clock := 3, trace := [Authenticate]\<rparr>"]
      plan_quiet[OF c(1-4)] run_quiet_noSites[OF c] f t w
    by simp
qed

theorem syncAllData_watermark_witness:
  "fst (syncAllData noSites quietEnv freshWorld) = Inr ()
   \<and> storedWatermark (snd (syncAllData noSites quietEnv freshWorld)) = Some 1700000000000
   \<and> fst (syncAllData noSites (quietEnv\<lparr>store_fails := finalWriteFails\<rparr>) freshWorld) = Inr ()
   \<and> storedWatermark (snd (syncAllData noSites (quietEnv\<lparr>store_fails := finalWriteFails\<rparr>) freshWorld))
       = storedWatermark freshWorld
   \<and> fst (syncAllData noSites (quietEnv\<lparr>connection := False\<rparr>) syncedWorld) = Inl DbNotConnected
   \<and> storedWatermark (snd (syncAllData noSites (quietEnv\<lparr>connection := False\<rparr>) syncedWorld))
       = Some 1700000000000
   \<and> fst (syncAllData noSites (quietEnv\<lparr>mysql_sessions := sourceDown\<rparr>) freshWorld) = Inl SourceUnavailable
   \<and> storedWatermark (snd (syncAllData noSites (quietEnv\<lparr>mysql_sessions := sourceDown\<rparr>) freshWorld))
       = storedWatermark freshWorld"
proof -
  let ?win = "\<lparr>startDate = 1699395200002, endDate = 1700000000001, syncType = initial\<rparr>"
  let ?w1 = "freshWorld\<lparr>clock := 3\<rparr>"
  let ?w3 = "freshWorld\<lparr>clock := 3, trace := [Authenticate]\<rparr>"
  let ?ef = "quietEnv\<lparr>store_fails := finalWriteFails\<rparr>"
  let ?ed = "quietEnv\<lparr>connection := False\<rparr>"
  let ?es = "quietEnv\<lparr>mysql_sessions := sourceDown\<rparr>"
  have q: "connection quietEnv" "\<not> store_fails quietEnv FindConfig" "env_INITIAL_SYNC_DAYS quietEnv = None"
    "time_at quietEnv = time_at quietEnv" "mysql_sessions quietEnv = mysql_sessions quietEnv"
    "api_login quietEnv = Some ''token''"
    by (simp_all add: quietEnv_def)
  have cf: "connection ?ef" "\<not> store_fails ?ef FindConfig" "env_INITIAL_SYNC_DAYS ?ef = None"
    "time_at ?ef = time_at quietEnv" "mysql_sessions ?ef = mysql_sessions quietEnv"
    "api_login ?ef = Some ''token''"
    by (simp_all add: quietEnv_def finalWriteFails_def)
  have cs: "connection ?es" "\<not> store_fails ?es FindConfig" "env_INITIAL_SYNC_DAYS ?es = None"
    "time_at ?es = time_at quietEnv"
    by (simp_all add: quietEnv_def)
  have t0: "time_at quietEnv (clock freshWorld) = 1700000000000"
    by (simp add: quietEnv_def freshWorld_def)
  have nf: "\<not> store_fails quietEnv SetLastSuccessfulSync" by (simp add: quietEnv_def)
  have ff: "store_fails ?ef SetLastSuccessfulSync" by (simp add: finalWriteFails_def)
  have A: "fst (syncAllData noSites quietEnv freshWorld) = Inr ()
           \<and> storedWatermark (snd (syncAllData noSites quietEnv freshWorld)) = Some 1700000000000"
    using syncAllData_watermark[of quietEnv freshWorld ?win ?w1 noSites "()" ?w1 "()" ?w3]
      plan_quiet[OF q(1-4)] run_quiet_noSites[OF q] nf t0
    by simp
  have B: "fst (syncAllData noSites ?ef freshWorld) = Inr ()
           \<and> storedWatermark (snd (syncAllData noSites ?ef freshWorld)) = storedWatermark freshWorld"
    using syncAllData_watermark[of ?ef freshWorld ?win ?w1 noSites "()" ?w1 "()" ?w3]
      plan_quiet[OF cf(1-4)] run_quiet_noSites[OF cf] ff
    by simp
  have pd: "fst (determineSyncWindow ?ed (snd (newDate ?ed syncedWorld))) = Inl DbNotConnected"
    by (simp add: determineSyncWindow_def)
  have sw: "storedWatermark syncedWorld = Some 1700000000000"
    by (simp add: storedWatermark_def syncedWorld_def freshWorld_def)
  have C: "fst (syncAllData noSites ?ed syncedWorld) = Inl DbNotConnected
           \<and> storedWatermark (snd (syncAllData noSites ?ed syncedWorld)) = Some 1700000000000"
    using syncAllData_watermark[of ?ed syncedWorld _ _ noSites _ _ _ _ DbNotConnected] pd sw
    by simp
  have sd: "fst (syncSessionIdsForWindow noSites ?es (startDate ?win) (endDate ?win) ?w1) = Inl SourceUnavailable"
    by (simp add: syncSessionIdsForWindow_def getSessionsAfterDate_def sourceDown_def)
  have D: "fst (syncAllData noSites ?es freshWorld) = Inl SourceUnavailable
           \<and> storedWatermark (snd (syncAllData noSites ?es freshWorld)) = storedWatermark freshWorld"
    using syncAllData_watermark[of ?es freshWorld ?win ?w1 noSites _ _ _ _ SourceUnavailable]
      plan_quiet[OF cs] sd
    by simp
  show ?thesis using A B C D by simp
qed

section \<open>Properties of the session phase\<close>

lemma lower_alice: "toLowerCase ''Alice@Example.com'' = ''alice@example.com''"
  by code_simp

lemma lower_ghost: "toLowerCase ''ghost@example.com'' = ''ghost@example.com''"
  by (simp add: toLowerCase_def lowerChar_def)

text \<open>
  No object built by the adapter passes the website filter, so the session phase returns
  before updateUserSessionsSequential whenever the query succeeds.
\<close>

lemma session_phase_skipped:
  assumes "mysql_sessions e s = Some rows"
  shows "syncSessionIdsForWindow svc e s t w = (Inr (), w)"
  using assms
  by (simp add: syncSessionIdsForWindow_def getSessionsAfterDate_def read_website_id_def
        list_includes_def)

lemma determineSyncWindow_users:
  "determineSyncWindow e (snd (newDate e w)) = (r, w1) \<Longrightarrow> users w1 = users w"
  using determineSyncWindow_frame[of e "snd (newDate e w)"] by simp

text \<open>
  Claim C8. When planning has succeeded and the relational source returns no session row for
  the window, the session phase returns successfully and leaves the world as it is (no user
  update, no error), and the run goes on with the analytics phase on that world: the run is the
  analytics phase followed by its handling, and the login of the analytics phase is made.
\<close>

theorem empty_batch_short_circuit:
  assumes "determineSyncWindow e (snd (newDate e w)) = (Inr win, w1)"
    and "mysql_sessions e (startDate win) = Some []"
  shows "syncSessionIdsForWindow svc e (startDate win) (endDate win) w1 = (Inr (), w1)
       \<and> users w1 = users w
       \<and> syncAllData svc e w =
           (case syncAnalyticsDataForWindow svc e (startDate win) (endDate win) w1 of
              (Inl err, w3) \<Rightarrow> (Inl err, logEvent (LogError ''Umami sync process failed'') w3)
            | (Inr u, w3) \<Rightarrow> (Inr (), updateLastSuccessfulSync e (time_at e (clock w)) w3))
       \<and> authCalls (snd (syncAllData svc e w)) = authCalls w + 1"
proof -
  have s: "syncSessionIdsForWindow svc e (startDate win) (endDate win) w1 = (Inr (), w1)"
    using assms(2) by (rule session_phase_skipped)
  show ?thesis
    using s determineSyncWindow_users[OF assms(1)]
      syncAllData_after_sessions[OF assms(1) s] syncAllData_authCalls_after_sessions[OF assms(1) s]
    by simp
qed

theorem empty_batch_short_circuit_witness:
  "determineSyncWindow quietEnv (snd (newDate quietEnv freshWorld)) =
     (Inr \<lparr>startDate = 1699395200002, endDate = 1700000000001, syncType = initial\<rparr>,
      freshWorld\<lparr>clock := 3\<rparr>)
   \<and> mysql_sessions quietEnv 1699395200002 = Some []
   \<and> syncSessionIdsForWindow noSites quietEnv 1699395200002 1700000000001 (freshWorld\<lparr>clock := 3\<rparr>)
       = (Inr (), freshWorld\<lparr>clock := 3\<rparr>)
   \<and> authCalls (snd (syncAllData noSites quietEnv freshWorld)) = 1"
proof -
  let ?win = "\<lparr>startDate = 1699395200002, endDate = 1700000000001, syncType = initial\<rparr>"
  have q: "connection quietEnv" "\<not> store_fails quietEnv FindConfig" "env_INITIAL_SYNC_DAYS quietEnv = None"
    "time_at quietEnv = time_at quietEnv"
    by (simp_all add: quietEnv_def)
  have m: "mysql_sessions quietEnv (startDate ?win) = Some []" by (simp add: quietEnv_def)
  have a: "authCalls freshWorld = 0" by (simp add: authCalls_def freshWorld_def)
  note th = empty_batch_short_circuit[OF plan_quiet[OF q] m, of noSites]
  have A: "syncSessionIdsForWindow noSites quietEnv (startDate ?win) (endDate ?win) (freshWorld\<lparr>clock := 3\<rparr>)
            = (Inr (), freshWorld\<lparr>clock := 3\<rparr>)"
    by (rule th[THEN conjunct1])
  have B: "authCalls (snd (syncAllData noSites quietEnv freshWorld)) = authCalls freshWorld + 1"
    by (rule th[THEN conjunct2, THEN conjunct2, THEN conjunct2])
  show ?thesis
    using A B plan_quiet[OF q] m a by simp
qed

text \<open>
  Claim C9. When planning has succeeded and the source returns a non-empty list of rows that
  all reference websites outside the configured list, the session phase returns successfully
  and leaves the world as it is (no user update is attempted and the zero-updates check is not
  reached), the run goes on with the analytics phase, and when the login and the final write
  succeed the run returns normally with the watermark advanced to the run-start instant.
\<close>

theorem unconfigured_rows_filtered:
  assumes "determineSyncWindow e (snd (newDate e w)) = (Inr win, w1)"
    and "mysql_sessions e (startDate win) = Some rows"
    and "rows \<noteq> []"
    and "\<forall>r\<in>set rows. website_id r \<notin> set (api_websiteIds svc)"
  shows "syncSessionIdsForWindow svc e (startDate win) (endDate win) w1 = (Inr (), w1)
       \<and> users w1 = users w
       \<and> syncAllData svc e w =
           (case syncAnalyticsDataForWindow svc e (startDate win) (endDate win) w1 of
              (Inl err, w3) \<Rightarrow> (Inl err, logEvent (LogError ''Umami sync process failed'') w3)
            | (Inr u, w3) \<Rightarrow> (Inr (), updateLastSuccessfulSync e (time_at e (clock w)) w3))
       \<and> authCalls (snd (syncAllData svc e w)) = authCalls w + 1
       \<and> (api_login e = Some tok \<and> \<not> store_fails e SetLastSuccessfulSync
          \<longrightarrow> fst (syncAllData svc e w) = Inr ()
              \<and> storedWatermark (snd (syncAllData svc e w)) = Some (time_at e (clock w)))"
proof -
  have s: "syncSessionIdsForWindow svc e (startDate win) (endDate win) w1 = (Inr (), w1)"
    using assms(2) by (rule session_phase_skipped)
  have adv: "api_login e = Some tok \<and> \<not> store_fails e SetLastSuccessfulSync
          \<longrightarrow> fst (syncAllData svc e w) = Inr ()
              \<and> storedWatermark (snd (syncAllData svc e w)) = Some (time_at e (clock w))"
  proof
    assume h: "api_login e = Some tok \<and> \<not> store_fails e SetLastSuccessfulSync"
    then have an: "syncAnalyticsDataForWindow svc e (startDate win) (endDate win) w1 =
        (Inr (), clearToken (syncWebsites e (startDate win) (endDate win) (websiteIds svc)
                 ((logEvent Authenticate w1)\<lparr>currentToken := Some tok\<rparr>)))"
      by (simp add: analytics_login_ok)
    show "fst (syncAllData svc e w) = Inr ()
              \<and> storedWatermark (snd (syncAllData svc e w)) = Some (time_at e (clock w))"
      using syncAllData_completed[OF assms(1) s an] h by simp
  qed
  show ?thesis
    using s adv determineSyncWindow_users[OF assms(1)]
      syncAllData_after_sessions[OF assms(1) s] syncAllData_authCalls_after_sessions[OF assms(1) s]
    by simp
qed

theorem unconfigured_rows_filtered_witness:
  "mysql_sessions (quietEnv\<lparr>mysql_sessions := rowsElsewhere\<rparr>) 1699395200002 = Some [rowElsewhere]
   \<and> website_id rowElsewhere \<notin> set (api_websiteIds oneSite)
   \<and> syncSessionIdsForWindow oneSite (quietEnv\<lparr>mysql_sessions := rowsElsewhere\<rparr>)
         1699395200002 1700000000001 (aliceWorld\<lparr>clock := 3\<rparr>) = (Inr (), aliceWorld\<lparr>clock := 3\<rparr>)
   \<and> fst (syncAllData oneSite (quietEnv\<lparr>mysql_sessions := rowsElsewhere\<rparr>) aliceWorld) = Inr ()
   \<and> storedWatermark (snd (syncAllData oneSite (quietEnv\<lparr>mysql_sessions := rowsElsewhere\<rparr>) aliceWorld))
       = Some 1700000000000"
proof -
  let ?e = "quietEnv\<lparr>mysql_sessions := rowsElsewhere\<rparr>"
  let ?win = "\<lparr>startDate = 1699395200002, endDate = 1700000000001, syncType = initial\<rparr>"
  have p: "determineSyncWindow ?e (snd (newDate ?e aliceWorld)) = (Inr ?win, aliceWorld\<lparr>clock := 3\<rparr>)"
    by (simp add: determineSyncWindow_def newDate_def storedWatermark_def freshWorld_def aliceWorld_def
        initialSyncDays_def parseInt_default timeClip_def maxTime_def quietEnv_def)
  have m: "mysql_sessions ?e (startDate ?win) = Some [rowElsewhere]" by (simp add: rowsElsewhere_def)
  have n: "[rowElsewhere] \<noteq> []" by simp
  have o: "\<forall>r\<in>set [rowElsewhere]. website_id r \<notin> set (api_websiteIds oneSite)"
    by (simp add: rowElsewhere_def oneSite_def)
  have l: "api_login ?e = Some ''token'' \<and> \<not> store_fails ?e SetLastSuccessfulSync"
    by (simp add: quietEnv_def)
  have t: "time_at ?e (clock aliceWorld) = 1700000000000"
    by (simp add: quietEnv_def aliceWorld_def freshWorld_def)
  note th = unconfigured_rows_filtered[OF p m n o, of "''token''"]
  have A: "syncSessionIdsForWindow oneSite ?e (startDate ?win) (endDate ?win) (aliceWorld\<lparr>clock := 3\<rparr>)
            = (Inr (), aliceWorld\<lparr>clock := 3\<rparr>)"
    by (rule th[THEN conjunct1])
  have B: "fst (syncAllData oneSite ?e aliceWorld) = Inr ()
           \<and> storedWatermark (snd (syncAllData oneSite ?e aliceWorld)) = Some (time_at ?e (clock aliceWorld))"
    using th[THEN conjunct2, THEN conjunct2, THEN conjunct2, THEN conjunct2] l by blast
  show ?thesis
    using A B t o by (simp add: rowsElsewhere_def)
qed

text \<open>What updateUserSessionsSequential does with a batch, when it is called.\<close>

lemma sequential_result:
  "connection e \<Longrightarrow>
   fst (updateUserSessionsSequential e ss w) =
     (if fst (updateUserSessions_loop e ss 0 w) = 0 then Inl NoUsersUpdated else Inr ())"
  by (cases "updateUserSessions_loop e ss 0 w") (simp add: updateUserSessionsSequential_def)

lemma updateUserSessionsSequential_outcome:
  assumes "connection e"
  shows "((\<forall>x\<in>set sessions. \<forall>u\<in>set (users w). email u \<noteq> toLowerCase (distinct_id x))
          \<longrightarrow> fst (updateUserSessionsSequential e sessions w) = Inl NoUsersUpdated)
       \<and> ((\<exists>x\<in>set sessions.
              \<not> store_fails e (UpdateUserSession (toLowerCase (distinct_id x)))
              \<and> (\<exists>u. find (\<lambda>u. email u = toLowerCase (distinct_id x)) (users w) = Some u
                      \<and> user_session_id u \<noteq> Some (session_id x)))
          \<longrightarrow> fst (updateUserSessionsSequential e sessions w) = Inr ())"
proof (intro conjI impI)
  assume "\<forall>x\<in>set sessions. \<forall>u\<in>set (users w). email u \<noteq> toLowerCase (distinct_id x)"
  then have "fst (updateUserSessions_loop e sessions 0 w) = 0"
    using sessions_loop_unmatched[of sessions w e 0] by simp
  then show "fst (updateUserSessionsSequential e sessions w) = Inl NoUsersUpdated"
    using assms by (simp add: sequential_result)
next
  assume "\<exists>x\<in>set sessions.
              \<not> store_fails e (UpdateUserSession (toLowerCase (distinct_id x)))
              \<and> (\<exists>u. find (\<lambda>u. email u = toLowerCase (distinct_id x)) (users w) = Some u
                      \<and> user_session_id u \<noteq> Some (session_id x))"
  then obtain x u where "x \<in> set sessions"
      "\<not> store_fails e (UpdateUserSession (toLowerCase (distinct_id x)))"
      "find (\<lambda>u. email u = toLowerCase (distinct_id x)) (users w) = Some u"
      "user_session_id u \<noteq> Some (session_id x)"
    by blast
  then have "0 < fst (updateUserSessions_loop e sessions 0 w)"
    by (rule sessions_loop_effective)
  then show "fst (updateUserSessionsSequential e sessions w) = Inr ()"
    using assms by (simp add: sequential_result)
qed

lemma syncWebsite_empty:
  assumes "fst (fetchAllSessions e wid s t w) = Inr []"
  shows "systemconfig (syncWebsite e s t wid w) = systemconfig w
       \<and> users (syncWebsite e s t wid w) = users w"
proof -
  obtain w1 where f: "fetchAllSessions e wid s t w = (Inr [], w1)"
    using assms by (cases "fetchAllSessions e wid s t w") simp
  then show ?thesis using fetchAllSessions_frame[of e wid s t w] by (simp add: syncWebsite_def)
qed

lemma updateLastSuccessfulSync_users:
  "users (updateLastSuccessfulSync e t0 w) = users w"
  by (auto simp: updateLastSuccessfulSync_def newDate_def)

text \<open>
  Claim C5 at a concrete run. The session table holds two rows of the configured website
  \<open>site-1\<close>, one of them for the user \<open>alice\<close> of the user collection. The objects that
  getSessionsAfterDate builds from the rows have no \<^verbatim>\<open>website_id\<close>, so the filter of
  syncSessionIdsForWindow drops both and the phase returns before updateUserSessionsSequential:
  the session phase does not throw although the batch is not empty and no user record was
  updated, the run returns normally, \<open>alice\<close> is still without a session id, and the watermark
  has advanced to the run-start instant.
\<close>

theorem configured_rows_never_reach_the_update:
  "mysql_sessions (quietEnv\<lparr>mysql_sessions := rowsConfigured\<rparr>) 1699395200002 = Some [rowGhost, rowAlice]
   \<and> website_id rowGhost \<in> set (api_websiteIds oneSite)
   \<and> website_id rowAlice \<in> set (api_websiteIds oneSite)
   \<and> find (\<lambda>u. email u = toLowerCase (distinct_id rowAlice)) (users aliceWorld) = Some alice
   \<and> syncSessionIdsForWindow oneSite (quietEnv\<lparr>mysql_sessions := rowsConfigured\<rparr>)
         1699395200002 1700000000001 (aliceWorld\<lparr>clock := 3\<rparr>) = (Inr (), aliceWorld\<lparr>clock := 3\<rparr>)
   \<and> fst (syncAllData oneSite (quietEnv\<lparr>mysql_sessions := rowsConfigured\<rparr>) aliceWorld) = Inr ()
   \<and> users (snd (syncAllData oneSite (quietEnv\<lparr>mysql_sessions := rowsConfigured\<rparr>) aliceWorld)) = [alice]
   \<and> user_session_id alice = None
   \<and> storedWatermark (snd (syncAllData oneSite (quietEnv\<lparr>mysql_sessions := rowsConfigured\<rparr>) aliceWorld))
       = Some 1700000000000"
proof -
  let ?e = "quietEnv\<lparr>mysql_sessions := rowsConfigured\<rparr>"
  let ?win = "\<lparr>startDate = 1699395200002, endDate = 1700000000001, syncType = initial\<rparr>"
  let ?w1 = "aliceWorld\<lparr>clock := 3\<rparr>"
  let ?wA = "(logEvent Authenticate ?w1)\<lparr>currentToken := Some ''token''\<rparr>"
  have p: "determineSyncWindow ?e (snd (newDate ?e aliceWorld)) = (Inr ?win, ?w1)"
    by (simp add: determineSyncWindow_def newDate_def storedWatermark_def freshWorld_def aliceWorld_def
        initialSyncDays_def parseInt_default timeClip_def maxTime_def quietEnv_def)
  have m: "mysql_sessions ?e (startDate ?win) = Some [rowGhost, rowAlice]"
    by (simp add: rowsConfigured_def)
  have s: "syncSessionIdsForWindow oneSite ?e (startDate ?win) (endDate ?win) ?w1 = (Inr (), ?w1)"
    using m by (rule session_phase_skipped)
  have l: "api_login ?e = Some ''token''" "\<not> store_fails ?e SetLastSuccessfulSync"
    by (simp_all add: quietEnv_def)
  have an: "syncAnalyticsDataForWindow oneSite ?e (startDate ?win) (endDate ?win) ?w1 =
        (Inr (), clearToken (syncWebsites ?e (startDate ?win) (endDate ?win) (websiteIds oneSite) ?wA))"
    using l(1) by (simp add: analytics_login_ok)
  have r: "fst (syncAllData oneSite ?e aliceWorld) = Inr ()
           \<and> storedWatermark (snd (syncAllData oneSite ?e aliceWorld)) = Some (time_at ?e (clock aliceWorld))"
    using syncAllData_completed[OF p s an] l(2) by simp
  have t: "time_at ?e (clock aliceWorld) = 1700000000000"
    by (simp add: quietEnv_def aliceWorld_def freshWorld_def)
  have f: "fst (fetchAllSessions ?e ''site-1'' (startDate ?win) (endDate ?win) ?wA) = Inr []"
    by (simp add: fetchAllSessions_def fetchAllSessions_loop.simps fetchSessionsPage_def
          getToken_def logEvent_def quietEnv_def API_PAGE_SIZE_def MAX_PAGES_def)
  have run: "snd (syncAllData oneSite ?e aliceWorld) =
      updateLastSuccessfulSync ?e (time_at ?e (clock aliceWorld))
        (clearToken (syncWebsites ?e (startDate ?win) (endDate ?win) (websiteIds oneSite) ?wA))"
    using syncAllData_after_sessions[OF p s] an by simp
  have ws: "websiteIds oneSite = [''site-1'']" by (simp add: oneSite_def)
  have uA: "users ?wA = [alice]" by (simp add: aliceWorld_def freshWorld_def)
  have "users (syncWebsites ?e (startDate ?win) (endDate ?win) (websiteIds oneSite) ?wA) = [alice]"
    using syncWebsite_empty[OF f] uA by (simp add: ws)
  then have u: "users (snd (syncAllData oneSite ?e aliceWorld)) = [alice]"
    by (simp add: run updateLastSuccessfulSync_users clearToken_def)
  have fa: "find (\<lambda>u. email u = toLowerCase (distinct_id rowAlice)) (users aliceWorld) = Some alice"
    by (simp add: rowAlice_def lower_alice aliceWorld_def freshWorld_def alice_def)
  have wi: "website_id rowGhost \<in> set (api_websiteIds oneSite)"
    "website_id rowAlice \<in> set (api_websiteIds oneSite)" "user_session_id alice = None"
    by (simp_all add: rowGhost_def rowAlice_def oneSite_def alice_def)
  show ?thesis using s r u t fa wi by (simp add: rowsConfigured_def)
qed

section \<open>Properties of the analytics phase\<close>







lemma setPath_value_free: "(setPath p v t = None) = (setPath p v' t = None)"
proof (induction p arbitrary: t)
  case Nil
  show ?case by simp
next
  case (Cons k p)
  show ?case
  proof (cases p)
    case Nil
    then show ?thesis by simp
  next
    case c: (Cons k' ks)
    show ?thesis
    proof (cases "map_of t k")
      case None
      then show ?thesis using Cons.IH[of "[]"] unfolding c
        by (cases "setPath (k' # ks) v []"; cases "setPath (k' # ks) v' []") auto
    next
      case (Some b)
      show ?thesis
      proof (cases b)
        case (BDoc sub)
        then show ?thesis using Cons.IH[of sub] Some unfolding c
          by (cases "setPath (k' # ks) v sub"; cases "setPath (k' # ks) v' sub") auto
      qed (simp_all add: Some c)
    qed
  qed
qed

lemma setApplies_iff: "setApplies p t = (\<exists>t'. setPath p v t = Some t')"
  using setPath_value_free[of p v t "BNum 0"] by (auto simp: setApplies_def)









lemma updateWebsiteSyncStatus_swallowed:
  assumes "store_fails e (SetWebsiteStatus wid) \<or> \<not> setApplies (split_dot wid) (storedStatuses w)"
  shows "systemconfig (updateWebsiteSyncStatus e wid d n w) = systemconfig w"
proof -
  have "\<not> setApplies (split_dot wid) (storedStatuses w) \<Longrightarrow>
        setPath (split_dot wid) (statusDoc (time_at e (clock w)) d n) (storedStatuses w) = None"
    using setApplies_iff[of "split_dot wid" "storedStatuses w"] by auto
  then show ?thesis using assms
    by (auto simp: updateWebsiteSyncStatus_def newDate_def storedStatuses_def configOrNew_def)
qed














end
